theory Spec2Isabelle
  imports Complex_Main "HOL-Library.Finite_Map" "HOL-Library.Sublist"
begin

section \<open>Python values\<close>

text \<open>
  The program (\<^verbatim>\<open>auto_dumper.py\<close>) is dynamically typed: the configuration is a
  dictionary whose values come from a JSON file and from the environment, and the
  identifiers of a lot come from the marketplace client. A value is modelled by
  \<open>pyval\<close>. The three Python number types (\<^verbatim>\<open>bool\<close>, \<^verbatim>\<open>int\<close>, \<^verbatim>\<open>float\<close>) are
  one constructor that carries the number denoted: Python's \<^verbatim>\<open>==\<close>, truth value and
  arithmetic agree on \<^verbatim>\<open>True\<close>, \<^verbatim>\<open>1\<close> and \<^verbatim>\<open>1.0\<close>, and the program never asks for the
  type of a value. So \<open>PNum r\<close> stands for an \<^verbatim>\<open>int\<close> when \<open>r\<close> is an integer and for
  a \<^verbatim>\<open>float\<close> when \<open>r\<close> is a double; a float read from a file or from the marketplace
  is a finite double (NaN and the infinities are not values of the model). A
  dictionary value is a finite map, so HOL equality on \<open>pyval\<close> is Python's \<^verbatim>\<open>==\<close>.
\<close>

datatype pyval =
    PNone
  | PNum real
  | PStr string
  | PList "pyval list"
  | PDict "(string, pyval) fmap"

text \<open>
  The exceptions that matter: a missing dictionary key, an operand of the wrong type, a
  missing attribute, and anything an external collaborator raises (the file system,
  the JSON parser, the marketplace client, the messenger client, \<^verbatim>\<open>float()\<close>), and
  an \<^verbatim>\<open>int\<close> too large to convert to a \<^verbatim>\<open>float\<close>.
\<close>

datatype exn = KeyError string | TypeError | AttributeError | ExternalError | OverflowError

text \<open>The truth value of a Python object, as \<^verbatim>\<open>not x\<close> and \<^verbatim>\<open>x and y\<close> use it.\<close>

fun truthy :: "pyval \<Rightarrow> bool" where
  "truthy PNone = False"
| "truthy (PNum r) = (r \<noteq> 0)"
| "truthy (PStr s) = (s \<noteq> [])"
| "truthy (PList xs) = (xs \<noteq> [])"
| "truthy (PDict m) = (m \<noteq> fmempty)"

fun hashable :: "pyval \<Rightarrow> bool" where
  "hashable (PList xs) = False"
| "hashable (PDict m) = False"
| "hashable v = True"

text \<open>
  \<^verbatim>\<open>x in c\<close>: membership for a list, substring for a string (the left operand must be a
  string), key membership for a dictionary (the left operand must be hashable; the keys
  of a dictionary read from JSON are strings), and a \<^verbatim>\<open>TypeError\<close> for a container that
  is not iterable.
\<close>

fun py_in :: "pyval \<Rightarrow> pyval \<Rightarrow> exn + bool" where
  "py_in x (PList ys) = Inr (x \<in> set ys)"
| "py_in x (PStr s) = (case x of PStr t \<Rightarrow> Inr (sublist t s) | _ \<Rightarrow> Inl TypeError)"
| "py_in x (PDict m) =
     (if hashable x then Inr (case x of PStr k \<Rightarrow> k |\<in>| fmdom m | _ \<Rightarrow> False)
      else Inl TypeError)"
| "py_in x PNone = Inl TypeError"
| "py_in x (PNum r) = Inl TypeError"

section \<open>Double-precision arithmetic\<close>

text \<open>
  A Python \<^verbatim>\<open>float\<close> is an IEEE 754 double: a finite double is a real of the form
  \<open>m * 2 ^ e\<close> with \<open>\<bar>m\<bar> < 2 ^ 53\<close> and the exponent of the last bit between \<open>-1074\<close> and
  \<open>971\<close>. Arithmetic gives the exact result rounded to the nearest double, ties to the
  even significand; \<open>round_to_double\<close> is that rounding, for a real below the overflow
  threshold. The sign of a zero is not modelled.
\<close>

text \<open>Rounding to the nearest integer, ties to the even one.\<close>

definition half_even :: "real \<Rightarrow> int" where
  "half_even t =
     (let f = \<lfloor>t\<rfloor>
      in if t - of_int f < 1 / 2 then f
         else if 1 / 2 < t - of_int f then f + 1
         else if even f then f else f + 1)"

text \<open>
  \<open>exp_up n e x\<close>, for \<open>2 ^ e \<le> x\<close>: the largest exponent \<open>e' \<le> e + n\<close> with
  \<open>2 ^ e' \<le> x\<close>. \<open>exp_down n e x\<close>, for \<open>x < 2 ^ - (e - 1)\<close>: the least \<open>e' \<le> e + n\<close>
  with \<open>2 ^ - e' \<le> x\<close>, or \<open>e + n\<close> when there is none.
\<close>

fun exp_up :: "nat \<Rightarrow> nat \<Rightarrow> real \<Rightarrow> nat" where
  "exp_up 0 e x = e"
| "exp_up (Suc n) e x = (if 2 ^ (e + 1) \<le> x then exp_up n (e + 1) x else e)"

fun exp_down :: "nat \<Rightarrow> nat \<Rightarrow> real \<Rightarrow> nat" where
  "exp_down 0 e x = e"
| "exp_down (Suc n) e x = (if 1 \<le> x * 2 ^ e then e else exp_down n (e + 1) x)"

text \<open>
  For \<open>1 \<le> \<bar>x\<bar>\<close> with \<open>2 ^ e \<le> \<bar>x\<bar> < 2 ^ (e + 1)\<close> the doubles around \<open>x\<close> are the
  multiples of \<open>2 ^ (e - 52)\<close>. For \<open>\<bar>x\<bar> < 1\<close> with \<open>2 ^ - e \<le> \<bar>x\<bar> < 2 ^ - (e - 1)\<close> they are
  the multiples of \<open>2 ^ - (e + 52)\<close>, where \<open>e\<close> stops at 1022: below \<open>2 ^ - 1022\<close> the
  doubles are the multiples of \<open>2 ^ - 1074\<close>.
\<close>

definition round_to_double :: "real \<Rightarrow> real" where
  "round_to_double x =
     (if 1 \<le> \<bar>x\<bar> then
        (let e = exp_up 1024 0 \<bar>x\<bar>
         in if 52 \<le> e then sgn x * of_int (half_even (\<bar>x\<bar> / 2 ^ (e - 52))) * 2 ^ (e - 52)
            else sgn x * of_int (half_even (\<bar>x\<bar> * 2 ^ (52 - e))) / 2 ^ (52 - e))
      else
        (let e = exp_down 1021 1 \<bar>x\<bar>
         in sgn x * of_int (half_even (\<bar>x\<bar> * 2 ^ (e + 52))) / 2 ^ (e + 52)))"

text \<open>
  The largest double is \<open>2 ^ 1024 - 2 ^ 971\<close>. A real whose magnitude is at least half a
  last bit above it does not round to a finite double.
\<close>

definition dbl_overflow :: real where
  "dbl_overflow = 2 ^ 1024 - 2 ^ 970"

text \<open>The result of an operation on floats: a finite double or an infinity.\<close>

datatype number = Finite real | PosInf | NegInf

text \<open>\<^verbatim>\<open>a - b\<close> for two finite doubles.\<close>

definition float_minus :: "real \<Rightarrow> real \<Rightarrow> number" where
  "float_minus a b =
     (if dbl_overflow \<le> a - b then PosInf
      else if a - b \<le> - dbl_overflow then NegInf
      else Finite (round_to_double (a - b)))"

text \<open>
  The float operand that \<^verbatim>\<open>float.__sub__\<close> makes of the other operand: a float as it
  is, an \<^verbatim>\<open>int\<close> (or \<^verbatim>\<open>bool\<close>) rounded to the nearest double, with an
  \<^verbatim>\<open>OverflowError\<close> when the int is too large, and a \<^verbatim>\<open>TypeError\<close> for a value that is
  not a number.
\<close>

fun to_float :: "pyval \<Rightarrow> exn + real" where
  "to_float (PNum r) =
     (if dbl_overflow \<le> \<bar>r\<bar> then Inl OverflowError else Inr (round_to_double r))"
| "to_float v = Inl TypeError"

text \<open>\<^verbatim>\<open>a - v\<close> for a float \<open>a\<close> and a configuration value \<open>v\<close>.\<close>

definition float_sub :: "real \<Rightarrow> pyval \<Rightarrow> exn + number" where
  "float_sub a v = (case to_float v of Inl e \<Rightarrow> Inl e | Inr b \<Rightarrow> Inr (float_minus a b))"

text \<open>
  \<^verbatim>\<open>x < m\<close> for a float \<open>x\<close> and a number \<open>m\<close>: Python compares a float with an
  \<^verbatim>\<open>int\<close> or a float by their exact values.
\<close>

fun number_lt :: "number \<Rightarrow> real \<Rightarrow> bool" where
  "number_lt (Finite x) m = (x < m)"
| "number_lt PosInf m = False"
| "number_lt NegInf m = True"

section \<open>The configuration and the state of a \<^verbatim>\<open>PriceDumper\<close>\<close>

type_synonym config_dict = "string \<rightharpoonup> pyval"

text \<open>\<^verbatim>\<open>os.getenv\<close>: the value of the variable, or \<^verbatim>\<open>None\<close>.\<close>

definition getenv :: "(string \<rightharpoonup> string) \<Rightarrow> string \<Rightarrow> pyval" where
  "getenv env k = (case env k of None \<Rightarrow> PNone | Some s \<Rightarrow> PStr s)"

text \<open>The module-level \<^verbatim>\<open>CONFIG\<close> (lines 30 to 42), for the environment \<open>env\<close>.\<close>

definition CONFIG :: "(string \<rightharpoonup> string) \<Rightarrow> config_dict" where
  "CONFIG env =
     [''check_interval_minutes'' \<mapsto> PNum 10,
      ''price_decrease_amount'' \<mapsto> PNum 1,
      ''min_price'' \<mapsto> PNum 0,
      ''telegram_token'' \<mapsto> getenv env ''TELEGRAM_TOKEN'',
      ''telegram_chat_id'' \<mapsto> getenv env ''TELEGRAM_CHAT_ID'',
      ''funpay_username'' \<mapsto> getenv env ''FUNPAY_USERNAME'',
      ''funpay_password'' \<mapsto> getenv env ''FUNPAY_PASSWORD'',
      ''game_id'' \<mapsto> PStr [],
      ''server_id'' \<mapsto> PStr [],
      ''lot_id'' \<mapsto> PStr [],
      ''whitelist'' \<mapsto> PList []]"

text \<open>
  The marketplace session is the \<^verbatim>\<open>Account\<close> object built from the credentials; the
  messenger client is the \<^verbatim>\<open>Bot\<close> object built from the token. Both are truthy objects.
\<close>

datatype account = Account pyval pyval

datatype bot = Bot pyval

record price_dumper =
  config :: config_dict
  bot :: "bot option"
  funpay_account :: "account option"

section \<open>Loading the configuration file\<close>

text \<open>
  What \<^verbatim>\<open>json.load\<close> returns for the file. A top-level object is given by its
  \<^verbatim>\<open>items()\<close>, in iteration order; the other JSON documents have no \<^verbatim>\<open>items\<close>
  attribute. JSON \<^verbatim>\<open>true\<close> and \<^verbatim>\<open>false\<close> are the numbers 1 and 0.
\<close>

datatype json_doc =
    JObject "(string \<times> pyval) list"
  | JArray "pyval list"
  | JString string
  | JNumber real
  | JNull

text \<open>
  The three ways \<^verbatim>\<open>load_config_file\<close> returns: \<^verbatim>\<open>True\<close> at line 77, \<^verbatim>\<open>False\<close> at line
  75 after reporting the required field that is missing or empty, and \<^verbatim>\<open>False\<close> at
  line 80 after an exception.
\<close>

datatype load_outcome = Loaded | RequiredMissing string | LoadFailed exn

fun returned :: "load_outcome \<Rightarrow> bool" where
  "returned Loaded = True"
| "returned (RequiredMissing field) = False"
| "returned (LoadFailed e) = False"

text \<open>Lines 64 to 66: the loop over the items of the file.\<close>

fun update_config :: "config_dict \<Rightarrow> (string \<times> pyval) list \<Rightarrow> config_dict" where
  "update_config cfg [] = cfg"
| "update_config cfg ((key, val) # items) =
     (if cfg key \<noteq> None then update_config (cfg(key \<mapsto> val)) items
      else update_config cfg items)"

definition required_fields :: "string list" where
  "required_fields = [''game_id'', ''server_id'', ''lot_id'', ''min_price'']"

text \<open>Lines 72 to 77: the loop over the required fields.\<close>

fun validate :: "config_dict \<Rightarrow> string list \<Rightarrow> load_outcome" where
  "validate cfg [] = Loaded"
| "validate cfg (field # rest) =
     (case cfg field of
        None \<Rightarrow> LoadFailed (KeyError field)
      | Some v \<Rightarrow> if \<not> truthy v then RequiredMissing field else validate cfg rest)"

text \<open>
  \<open>file\<close> is what opening and parsing the file gives: an exception, or the document.
  The dictionary is updated in place, so the updates made before a failure stay.
\<close>

definition load_config_file ::
  "price_dumper \<Rightarrow> exn + json_doc \<Rightarrow> load_outcome \<times> price_dumper" where
  "load_config_file d file =
     (case file of
        Inl e \<Rightarrow> (LoadFailed e, d)
      | Inr (JObject items) \<Rightarrow>
          (let d' = d\<lparr>config := update_config (config d) items\<rparr>
           in (validate (config d') required_fields, d'))
      | Inr _ \<Rightarrow> (LoadFailed AttributeError, d))"

section \<open>The market snapshot\<close>

text \<open>
  A lot as the marketplace client returns it. \<open>price_float\<close> is the outcome of
  \<^verbatim>\<open>float(lot.price)\<close>, which raises on a value that is not a number.
\<close>

record lot =
  user_id :: pyval
  user_name :: pyval
  price_float :: "exn + real"
  ident :: pyval

text \<open>The dictionary built for each lot at lines 135 to 140.\<close>

record seller =
  seller_id :: pyval
  seller_name :: pyval
  price :: real
  lot_id :: pyval

datatype message = Notification real number pyval real

text \<open>
  The external collaborators, as what each call answers during one cycle: \<open>None\<close> or
  \<open>Inr\<close> when the call returns, an exception when it raises.
\<close>

record world =
  account_init :: "pyval \<Rightarrow> pyval \<Rightarrow> exn option"
  get_lots :: "account \<Rightarrow> pyval \<Rightarrow> pyval \<Rightarrow> exn + lot list"
  change_lot_price :: "account \<Rightarrow> pyval \<Rightarrow> number \<Rightarrow> exn option"
  send_message :: "bot \<Rightarrow> pyval \<Rightarrow> message \<Rightarrow> exn option"

text \<open>The calls made to the collaborators, in order.\<close>

datatype call =
    CallAccount pyval pyval
  | CallGetLots pyval pyval
  | CallChangeLotPrice pyval number
  | CallSendMessage pyval message

definition login_to_funpay :: "world \<Rightarrow> price_dumper \<Rightarrow> bool \<times> price_dumper \<times> call list" where
  "login_to_funpay w d =
     (case config d ''funpay_username'' of
        None \<Rightarrow> (False, d, [])
      | Some u \<Rightarrow>
          if \<not> truthy u then (False, d, [])
          else (case config d ''funpay_password'' of
                  None \<Rightarrow> (False, d, [])
                | Some p \<Rightarrow>
                    if \<not> truthy p then (False, d, [])
                    else (case account_init w u p of
                            Some e \<Rightarrow> (False, d, [CallAccount u p])
                          | None \<Rightarrow>
                              (True, d\<lparr>funpay_account := Some (Account u p)\<rparr>,
                               [CallAccount u p]))))"

text \<open>Lines 132 to 140: the loop that builds \<^verbatim>\<open>sellers\<close>; an exception ends it.\<close>

fun to_sellers :: "lot list \<Rightarrow> exn + seller list" where
  "to_sellers [] = Inr []"
| "to_sellers (l # ls) =
     (case price_float l of
        Inl e \<Rightarrow> Inl e
      | Inr p \<Rightarrow>
          (case to_sellers ls of
             Inl e \<Rightarrow> Inl e
           | Inr ss \<Rightarrow>
               Inr (\<lparr>seller_id = user_id l, seller_name = user_name l, price = p,
                     lot_id = ident l\<rparr> # ss)))"

definition get_market_prices :: "world \<Rightarrow> price_dumper \<Rightarrow> seller list \<times> call list" where
  "get_market_prices w d =
     (case funpay_account d of
        None \<Rightarrow> ([], [])
      | Some a \<Rightarrow>
          (case config d ''game_id'' of
             None \<Rightarrow> ([], [])
           | Some g \<Rightarrow>
               (case config d ''server_id'' of
                  None \<Rightarrow> ([], [])
                | Some s \<Rightarrow>
                    (case get_lots w a g s of
                       Inl e \<Rightarrow> ([], [CallGetLots g s])
                     | Inr all_lots \<Rightarrow>
                         (case to_sellers all_lots of
                            Inl e \<Rightarrow> ([], [CallGetLots g s])
                          | Inr sellers \<Rightarrow> (sellers, [CallGetLots g s]))))))"

section \<open>The pricing decision\<close>

fun find_my_listing_loop :: "pyval \<Rightarrow> seller list \<Rightarrow> seller option" where
  "find_my_listing_loop my_lot_id [] = None"
| "find_my_listing_loop my_lot_id (s # sellers) =
     (if lot_id s = my_lot_id then Some s else find_my_listing_loop my_lot_id sellers)"

definition find_my_listing :: "price_dumper \<Rightarrow> seller list \<Rightarrow> exn + seller option" where
  "find_my_listing d sellers =
     (case config d ''lot_id'' of
        None \<Rightarrow> Inl (KeyError ''lot_id'')
      | Some my_lot_id \<Rightarrow> Inr (find_my_listing_loop my_lot_id sellers))"

text \<open>
  Line 168: \<^verbatim>\<open>seller['seller_id'] in whitelist or seller['seller_name'] in whitelist\<close>;
  the second membership test is evaluated only when the first is false.
\<close>

definition in_whitelist :: "config_dict \<Rightarrow> seller \<Rightarrow> exn + bool" where
  "in_whitelist cfg s =
     (case cfg ''whitelist'' of
        None \<Rightarrow> Inl (KeyError ''whitelist'')
      | Some wl \<Rightarrow>
          (case py_in (seller_id s) wl of
             Inl e \<Rightarrow> Inl e
           | Inr True \<Rightarrow> Inr True
           | Inr False \<Rightarrow> py_in (seller_name s) wl))"

text \<open>Lines 162 to 172: the loop, with \<^verbatim>\<open>cheapest\<close> as the accumulator.\<close>

fun find_cheapest_loop ::
  "config_dict \<Rightarrow> pyval \<Rightarrow> seller option \<Rightarrow> seller list \<Rightarrow> exn + seller option" where
  "find_cheapest_loop cfg my_lot_id cheapest [] = Inr cheapest"
| "find_cheapest_loop cfg my_lot_id cheapest (s # sellers) =
     (if lot_id s = my_lot_id then find_cheapest_loop cfg my_lot_id cheapest sellers
      else (case in_whitelist cfg s of
              Inl e \<Rightarrow> Inl e
            | Inr True \<Rightarrow> find_cheapest_loop cfg my_lot_id cheapest sellers
            | Inr False \<Rightarrow>
                (case cheapest of
                   None \<Rightarrow> find_cheapest_loop cfg my_lot_id (Some s) sellers
                 | Some c \<Rightarrow>
                     if price s < price c
                     then find_cheapest_loop cfg my_lot_id (Some s) sellers
                     else find_cheapest_loop cfg my_lot_id cheapest sellers)))"

definition find_cheapest_competitor ::
  "price_dumper \<Rightarrow> seller list \<Rightarrow> exn + seller option" where
  "find_cheapest_competitor d sellers =
     (case config d ''lot_id'' of
        None \<Rightarrow> Inl (KeyError ''lot_id'')
      | Some my_lot_id \<Rightarrow> find_cheapest_loop (config d) my_lot_id None sellers)"

text \<open>
  Lines 231 to 241 of \<^verbatim>\<open>check_and_update_price\<close>: from the price of my listing and the
  price of the cheapest competitor, either nothing to do or the new price. The
  comparison \<^verbatim>\<open>new_price < min_price\<close> raises a \<^verbatim>\<open>TypeError\<close> unless the minimum price
  is a number; the minimum price itself, an \<^verbatim>\<open>int\<close> or a float, becomes the new price
  when the difference is below it.
\<close>

datatype decision = NoAction | SetPrice number

definition decide :: "config_dict \<Rightarrow> real \<Rightarrow> real \<Rightarrow> exn + decision" where
  "decide cfg my_price competitor_price =
     (if my_price \<le> competitor_price then Inr NoAction
      else (case cfg ''price_decrease_amount'' of
              None \<Rightarrow> Inl (KeyError ''price_decrease_amount'')
            | Some dec \<Rightarrow>
                (case float_sub competitor_price dec of
                   Inl e \<Rightarrow> Inl e
                 | Inr new_price \<Rightarrow>
                     (case cfg ''min_price'' of
                        None \<Rightarrow> Inl (KeyError ''min_price'')
                      | Some mn \<Rightarrow>
                          (case mn of
                             PNum m \<Rightarrow>
                               Inr (SetPrice (if number_lt new_price m then Finite m
                                              else new_price))
                           | _ \<Rightarrow> Inl TypeError)))))"

section \<open>One cycle\<close>

definition update_my_price :: "world \<Rightarrow> price_dumper \<Rightarrow> number \<Rightarrow> bool \<times> call list" where
  "update_my_price w d new_price =
     (case funpay_account d of
        None \<Rightarrow> (False, [])
      | Some a \<Rightarrow>
          (case config d ''lot_id'' of
             None \<Rightarrow> (False, [])
           | Some l \<Rightarrow>
               (case change_lot_price w a l new_price of
                  Some e \<Rightarrow> (False, [CallChangeLotPrice l new_price])
                | None \<Rightarrow> (True, [CallChangeLotPrice l new_price]))))"

definition send_telegram_notification ::
  "world \<Rightarrow> price_dumper \<Rightarrow> message \<Rightarrow> bool \<times> call list" where
  "send_telegram_notification w d msg =
     (case bot d of
        None \<Rightarrow> (False, [])
      | Some b \<Rightarrow>
          (case config d ''telegram_chat_id'' of
             None \<Rightarrow> (False, [])
           | Some chat \<Rightarrow>
               (case send_message w b chat msg of
                  Some e \<Rightarrow> (False, [CallSendMessage chat msg])
                | None \<Rightarrow> (True, [CallSendMessage chat msg]))))"

text \<open>
  What one run of \<^verbatim>\<open>check_and_update_price\<close> leaves: the exception that escaped it, if
  any, the state of the object, and the calls it made.
\<close>

record cycle =
  raised :: "exn option"
  dumper :: price_dumper
  calls :: "call list"

definition check_and_update_price :: "world \<Rightarrow> price_dumper \<Rightarrow> cycle" where
  "check_and_update_price w d0 =
     (let (logged_in, d, c1) =
            (if funpay_account d0 = None then login_to_funpay w d0 else (True, d0, []))
      in if \<not> logged_in then \<lparr>raised = None, dumper = d, calls = c1\<rparr>
         else
           (let (sellers, c2) = get_market_prices w d
            in if sellers = [] then \<lparr>raised = None, dumper = d, calls = c1 @ c2\<rparr>
               else
                 (case find_my_listing d sellers of
                    Inl e \<Rightarrow> \<lparr>raised = Some e, dumper = d, calls = c1 @ c2\<rparr>
                  | Inr None \<Rightarrow> \<lparr>raised = None, dumper = d, calls = c1 @ c2\<rparr>
                  | Inr (Some my_listing) \<Rightarrow>
                      (case find_cheapest_competitor d sellers of
                         Inl e \<Rightarrow> \<lparr>raised = Some e, dumper = d, calls = c1 @ c2\<rparr>
                       | Inr None \<Rightarrow> \<lparr>raised = None, dumper = d, calls = c1 @ c2\<rparr>
                       | Inr (Some cheapest_competitor) \<Rightarrow>
                           (case decide (config d) (price my_listing)
                                   (price cheapest_competitor) of
                              Inl e \<Rightarrow> \<lparr>raised = Some e, dumper = d, calls = c1 @ c2\<rparr>
                            | Inr NoAction \<Rightarrow>
                                \<lparr>raised = None, dumper = d, calls = c1 @ c2\<rparr>
                            | Inr (SetPrice new_price) \<Rightarrow>
                                (let (updated, c3) = update_my_price w d new_price
                                 in if updated
                                    then
                                      (let (sent, c4) =
                                             send_telegram_notification w d
                                               (Notification (price my_listing) new_price
                                                  (seller_name cheapest_competitor)
                                                  (price cheapest_competitor))
                                       in \<lparr>raised = None, dumper = d,
                                           calls = c1 @ c2 @ c3 @ c4\<rparr>)
                                    else \<lparr>raised = None, dumper = d,
                                          calls = c1 @ c2 @ c3\<rparr>))))))"

section \<open>Example values\<close>

text \<open>
  The scenario used to exercise the theorems: my listing at 100, seller A at 90, the
  whitelisted seller B at 50, seller C tied with A, and a second entry with my lot id.
\<close>

definition my_seller :: seller where
  "my_seller = \<lparr>seller_id = PNum 1, seller_name = PStr ''me'', price = 100, lot_id = PStr ''L0''\<rparr>"

definition seller_A :: seller where
  "seller_A = \<lparr>seller_id = PNum 2, seller_name = PStr ''A'', price = 90, lot_id = PStr ''L1''\<rparr>"

definition seller_B :: seller where
  "seller_B = \<lparr>seller_id = PNum 3, seller_name = PStr ''B'', price = 50, lot_id = PStr ''L2''\<rparr>"

definition seller_C :: seller where
  "seller_C = \<lparr>seller_id = PNum 4, seller_name = PStr ''C'', price = 90, lot_id = PStr ''L3''\<rparr>"

definition my_second :: seller where
  "my_second = \<lparr>seller_id = PNum 1, seller_name = PStr ''me'', price = 40, lot_id = PStr ''L0''\<rparr>"

definition example_env :: "string \<rightharpoonup> string" where
  "example_env =
     [''TELEGRAM_TOKEN'' \<mapsto> ''T'', ''TELEGRAM_CHAT_ID'' \<mapsto> ''C'',
      ''FUNPAY_USERNAME'' \<mapsto> ''u'', ''FUNPAY_PASSWORD'' \<mapsto> ''p'']"

definition example_dumper :: price_dumper where
  "example_dumper =
     \<lparr>config = (CONFIG example_env)
        (''game_id'' \<mapsto> PStr ''G'', ''server_id'' \<mapsto> PStr ''S'', ''lot_id'' \<mapsto> PStr ''L0'',
         ''whitelist'' \<mapsto> PList [PStr ''B'']),
      bot = Some (Bot (PStr ''T'')), funpay_account = Some (Account (PStr ''u'') (PStr ''p''))\<rparr>"

text \<open>
  The market of the scenario as the marketplace client returns it, a world in which
  every call succeeds, one in which the listing query raises, one in which the price
  update raises, a dumper whose minimum price is above every price on the market, and
  one whose decrease has been set, on top of that, to the integer \<open>2 ^ 1024\<close>.
\<close>

definition example_lots :: "lot list" where
  "example_lots =
     [\<lparr>user_id = PNum 1, user_name = PStr ''me'', price_float = Inr 100, ident = PStr ''L0''\<rparr>,
      \<lparr>user_id = PNum 2, user_name = PStr ''A'', price_float = Inr 90, ident = PStr ''L1''\<rparr>,
      \<lparr>user_id = PNum 3, user_name = PStr ''B'', price_float = Inr 50, ident = PStr ''L2''\<rparr>]"

definition example_world :: world where
  "example_world =
     \<lparr>account_init = (\<lambda>u p. None), get_lots = (\<lambda>a g s. Inr example_lots),
      change_lot_price = (\<lambda>a l p. None), send_message = (\<lambda>b c m. None)\<rparr>"

definition query_fails_world :: world where
  "query_fails_world = example_world\<lparr>get_lots := (\<lambda>a g s. Inl ExternalError)\<rparr>"

definition update_fails_world :: world where
  "update_fails_world = example_world\<lparr>change_lot_price := (\<lambda>a l p. Some ExternalError)\<rparr>"

definition high_floor_dumper :: price_dumper where
  "high_floor_dumper =
     example_dumper\<lparr>config := (config example_dumper)(''min_price'' \<mapsto> PNum 120)\<rparr>"

definition huge_decrease_dumper :: price_dumper where
  "huge_decrease_dumper =
     high_floor_dumper\<lparr>config :=
       (config high_floor_dumper)(''price_decrease_amount'' \<mapsto> PNum (2 ^ 1024))\<rparr>"

text \<open>A dumper built in an empty environment, and two configuration files.\<close>

definition fresh_dumper :: price_dumper where
  "fresh_dumper = \<lparr>config = CONFIG Map.empty, bot = None, funpay_account = None\<rparr>"

definition file_min_price_zero :: "(string \<times> pyval) list" where
  "file_min_price_zero =
     [(''game_id'', PStr ''G''), (''server_id'', PStr ''S''), (''lot_id'', PStr ''L0''),
      (''min_price'', PNum 0)]"

definition file_min_price_five :: "(string \<times> pyval) list" where
  "file_min_price_five =
     [(''game_id'', PStr ''G''), (''server_id'', PStr ''S''), (''lot_id'', PStr ''L0''),
      (''colour'', PStr ''red''), (''min_price'', PNum 5)]"

section \<open>Locating my listing and the cheapest competitor\<close>

lemma find_my_listing_loop_None:
  "find_my_listing_loop l sellers = None \<longleftrightarrow> (\<forall>s\<in>set sellers. lot_id s \<noteq> l)"
  by (induction sellers) auto

lemma find_my_listing_loop_first:
  "find_my_listing_loop l sellers = Some s \<longleftrightarrow>
     (\<exists>pre post. sellers = pre @ s # post \<and> lot_id s = l \<and> (\<forall>t\<in>set pre. lot_id t \<noteq> l))"
proof (induction sellers)
  case Nil
  then show ?case by simp
next
  case (Cons x xs)
  show ?case
  proof (cases "lot_id x = l")
    case True
    have "(\<exists>pre post. x # xs = pre @ s # post \<and> lot_id s = l \<and> (\<forall>t\<in>set pre. lot_id t \<noteq> l))
            \<longleftrightarrow> x = s"
    proof
      assume "\<exists>pre post. x # xs = pre @ s # post \<and> lot_id s = l \<and> (\<forall>t\<in>set pre. lot_id t \<noteq> l)"
      then obtain pre post where d: "x # xs = pre @ s # post" and a: "\<forall>t\<in>set pre. lot_id t \<noteq> l"
        by blast
      show "x = s"
      proof (cases pre)
        case Nil
        with d show ?thesis by simp
      next
        case (Cons p ps)
        with d have "p = x" by simp
        with Cons a True show ?thesis by simp
      qed
    next
      assume "x = s"
      with True have "x # xs = [] @ s # xs \<and> lot_id s = l \<and> (\<forall>t\<in>set []. lot_id t \<noteq> l)"
        by simp
      then show "\<exists>pre post. x # xs = pre @ s # post \<and> lot_id s = l \<and> (\<forall>t\<in>set pre. lot_id t \<noteq> l)"
        by blast
    qed
    with True show ?thesis by simp
  next
    case False
    have "(\<exists>pre post. x # xs = pre @ s # post \<and> lot_id s = l \<and> (\<forall>t\<in>set pre. lot_id t \<noteq> l))
            \<longleftrightarrow> (\<exists>pre post. xs = pre @ s # post \<and> lot_id s = l \<and> (\<forall>t\<in>set pre. lot_id t \<noteq> l))"
    proof
      assume "\<exists>pre post. x # xs = pre @ s # post \<and> lot_id s = l \<and> (\<forall>t\<in>set pre. lot_id t \<noteq> l)"
      then obtain pre post where d: "x # xs = pre @ s # post" and e: "lot_id s = l"
        and a: "\<forall>t\<in>set pre. lot_id t \<noteq> l"
        by blast
      show "\<exists>pre post. xs = pre @ s # post \<and> lot_id s = l \<and> (\<forall>t\<in>set pre. lot_id t \<noteq> l)"
      proof (cases pre)
        case Nil
        with d e False show ?thesis by simp
      next
        case (Cons p ps)
        with d a e have "xs = ps @ s # post \<and> lot_id s = l \<and> (\<forall>t\<in>set ps. lot_id t \<noteq> l)"
          by simp
        then show ?thesis by blast
      qed
    next
      assume "\<exists>pre post. xs = pre @ s # post \<and> lot_id s = l \<and> (\<forall>t\<in>set pre. lot_id t \<noteq> l)"
      then obtain pre post where "xs = pre @ s # post" "lot_id s = l" "\<forall>t\<in>set pre. lot_id t \<noteq> l"
        by blast
      with False have "x # xs = (x # pre) @ s # post \<and> lot_id s = l \<and> (\<forall>t\<in>set (x # pre). lot_id t \<noteq> l)"
        by simp
      then show "\<exists>pre post. x # xs = pre @ s # post \<and> lot_id s = l \<and> (\<forall>t\<in>set pre. lot_id t \<noteq> l)"
        by blast
    qed
    with False Cons.IH show ?thesis by simp
  qed
qed

lemma in_whitelist_list:
  "cfg ''whitelist'' = Some (PList ws) \<Longrightarrow>
   in_whitelist cfg s = Inr (seller_id s \<in> set ws \<or> seller_name s \<in> set ws)"
  by (cases "seller_id s \<in> set ws") (simp_all add: in_whitelist_def)

lemma in_whitelist_False:
  "in_whitelist cfg s = Inr False \<Longrightarrow>
   \<exists>wl. cfg ''whitelist'' = Some wl \<and> py_in (seller_id s) wl = Inr False \<and>
        py_in (seller_name s) wl = Inr False"
  by (auto simp: in_whitelist_def split: option.splits sum.splits bool.splits)

lemma find_cheapest_loop_result:
  "find_cheapest_loop cfg l acc sellers = Inr (Some c) \<Longrightarrow>
   acc = Some c \<or> (c \<in> set sellers \<and> lot_id c \<noteq> l \<and> in_whitelist cfg c = Inr False)"
proof (induction sellers arbitrary: acc)
  case Nil
  then show ?case by simp
next
  case (Cons s sellers)
  show ?case
  proof (cases "lot_id s = l")
    case True
    with Cons.prems have "find_cheapest_loop cfg l acc sellers = Inr (Some c)" by simp
    from Cons.IH [OF this] show ?thesis by auto
  next
    case False
    note notmine = this
    show ?thesis
    proof (cases "in_whitelist cfg s")
      case (Inl e)
      with notmine Cons.prems show ?thesis by simp
    next
      case (Inr b)
      show ?thesis
      proof (cases b)
        case True
        with Inr notmine Cons.prems
        have "find_cheapest_loop cfg l acc sellers = Inr (Some c)" by simp
        from Cons.IH [OF this] show ?thesis by auto
      next
        case False
        with Inr notmine Cons.prems
        have "find_cheapest_loop cfg l acc sellers = Inr (Some c) \<or>
              find_cheapest_loop cfg l (Some s) sellers = Inr (Some c)"
          by (auto split: option.splits if_splits)
        then show ?thesis
        proof
          assume "find_cheapest_loop cfg l acc sellers = Inr (Some c)"
          from Cons.IH [OF this] show ?thesis by auto
        next
          assume "find_cheapest_loop cfg l (Some s) sellers = Inr (Some c)"
          from Cons.IH [OF this] False Inr notmine show ?thesis by auto
        qed
      qed
    qed
  qed
qed


lemma find_cheapest_loop_skip:
  assumes "cfg ''whitelist'' = Some (PList ws)"
    and "\<not> (lot_id s \<noteq> l \<and> seller_id s \<notin> set ws \<and> seller_name s \<notin> set ws)"
  shows "find_cheapest_loop cfg l acc (s # sellers) = find_cheapest_loop cfg l acc sellers"
  using assms(2) by (auto simp: in_whitelist_list [of cfg ws, OF assms(1)])

lemma find_cheapest_loop_first:
  assumes "cfg ''whitelist'' = Some (PList ws)"
    and "lot_id s \<noteq> l \<and> seller_id s \<notin> set ws \<and> seller_name s \<notin> set ws"
  shows "find_cheapest_loop cfg l None (s # sellers) = find_cheapest_loop cfg l (Some s) sellers"
  using assms(2) by (simp add: in_whitelist_list [of cfg ws, OF assms(1)])

lemma find_cheapest_loop_take:
  assumes "cfg ''whitelist'' = Some (PList ws)"
    and "lot_id s \<noteq> l \<and> seller_id s \<notin> set ws \<and> seller_name s \<notin> set ws"
  shows "find_cheapest_loop cfg l (Some c) (s # sellers) =
           find_cheapest_loop cfg l (Some (if price s < price c then s else c)) sellers"
  using assms(2) by (simp add: in_whitelist_list [of cfg ws, OF assms(1)])

lemma find_cheapest_loop_Some:
  assumes wl: "cfg ''whitelist'' = Some (PList ws)"
  shows "\<exists>m pre post.
           find_cheapest_loop cfg l (Some c) sellers = Inr (Some m) \<and>
           c # filter (\<lambda>s. lot_id s \<noteq> l \<and> seller_id s \<notin> set ws \<and> seller_name s \<notin> set ws) sellers
             = pre @ m # post \<and>
           (\<forall>t\<in>set pre. price m < price t) \<and> (\<forall>t\<in>set post. price m \<le> price t)"
proof (induction sellers arbitrary: c)
  case Nil
  have "find_cheapest_loop cfg l (Some c) [] = Inr (Some c)"
    "c # filter (\<lambda>s. lot_id s \<noteq> l \<and> seller_id s \<notin> set ws \<and> seller_name s \<notin> set ws) []
       = [] @ c # []"
    "\<forall>t\<in>set []. price c < price t" "\<forall>t\<in>set []. price c \<le> price t"
    by simp_all
  then show ?case by (intro exI [of _ c] exI [of _ "[]"] conjI)
next
  case (Cons s sellers)
  let ?P = "\<lambda>s. lot_id s \<noteq> l \<and> seller_id s \<notin> set ws \<and> seller_name s \<notin> set ws"
  show ?case
  proof (cases "?P s")
    case False
    have step: "find_cheapest_loop cfg l (Some c) (s # sellers) =
               find_cheapest_loop cfg l (Some c) sellers"
      by (rule find_cheapest_loop_skip [where cfg = cfg, OF wl False])
    from False have f: "filter ?P (s # sellers) = filter ?P sellers" by auto
    show ?thesis unfolding step f by (rule Cons.IH)
  next
    case True
    then have f: "filter ?P (s # sellers) = s # filter ?P sellers" by simp
    show ?thesis
    proof (cases "price s < price c")
      case lt: True
      have step: "find_cheapest_loop cfg l (Some c) (s # sellers) =
                 find_cheapest_loop cfg l (Some s) sellers"
        using find_cheapest_loop_take [where cfg = cfg and c = c and sellers = sellers, OF wl True] lt by (simp only: if_True)
      from Cons.IH [of s] obtain m pre post where
        r: "find_cheapest_loop cfg l (Some s) sellers = Inr (Some m)" and
        d: "s # filter ?P sellers = pre @ m # post" and
        a: "\<forall>t\<in>set pre. price m < price t" and b: "\<forall>t\<in>set post. price m \<le> price t"
        by blast
      have "s \<in> set (s # filter ?P sellers)" by simp
      then have "s \<in> set (pre @ m # post)" by (simp only: d)
      with a b have "price m \<le> price s" by auto
      with lt have mc: "price m < price c" by simp
      have r': "find_cheapest_loop cfg l (Some c) (s # sellers) = Inr (Some m)"
        using step r by (simp only:)
      have d': "c # filter ?P (s # sellers) = (c # pre) @ m # post"
        unfolding f using d by simp
      have a': "\<forall>t\<in>set (c # pre). price m < price t" using a mc by simp
      show ?thesis
        by (intro exI [of _ m] exI [of _ "c # pre"] exI [of _ post] conjI) (rule r' d' a' b)+
    next
      case ge: False
      have step: "find_cheapest_loop cfg l (Some c) (s # sellers) =
                 find_cheapest_loop cfg l (Some c) sellers"
        using find_cheapest_loop_take [where cfg = cfg and c = c and sellers = sellers, OF wl True] ge by (simp only: if_False)
      from Cons.IH [of c] obtain m pre post where
        r: "find_cheapest_loop cfg l (Some c) sellers = Inr (Some m)" and
        d: "c # filter ?P sellers = pre @ m # post" and
        a: "\<forall>t\<in>set pre. price m < price t" and b: "\<forall>t\<in>set post. price m \<le> price t"
        by blast
      have r': "find_cheapest_loop cfg l (Some c) (s # sellers) = Inr (Some m)"
        using step r by (simp only:)
      show ?thesis
      proof (cases pre)
        case Nil
        with d have mc: "m = c" and p: "post = filter ?P sellers" by simp_all
        have d': "c # filter ?P (s # sellers) = [] @ m # (s # post)"
          unfolding f using mc p by simp
        have a': "\<forall>t\<in>set []. price m < price t" by simp
        have b': "\<forall>t\<in>set (s # post). price m \<le> price t" using b ge mc by simp
        show ?thesis
          by (intro exI [of _ m] exI [of _ "[]"] exI [of _ "s # post"] conjI) (rule r' d' a' b')+
      next
        case (Cons p ps)
        with d have pc: "p = c" and rest: "filter ?P sellers = ps @ m # post" by simp_all
        from Cons pc a have mc: "price m < price c" by simp
        with ge have ms: "price m < price s" by simp
        have d': "c # filter ?P (s # sellers) = (c # s # ps) @ m # post"
          unfolding f using rest by simp
        have a': "\<forall>t\<in>set (c # s # ps). price m < price t" using a Cons mc ms by simp
        show ?thesis
          by (intro exI [of _ m] exI [of _ "c # s # ps"] exI [of _ post] conjI) (rule r' d' a' b)+
      qed
    qed
  qed
qed

lemma find_cheapest_loop_None:
  assumes wl: "cfg ''whitelist'' = Some (PList ws)"
  shows "(filter (\<lambda>s. lot_id s \<noteq> l \<and> seller_id s \<notin> set ws \<and> seller_name s \<notin> set ws) sellers = []
            \<longrightarrow> find_cheapest_loop cfg l None sellers = Inr None) \<and>
         (filter (\<lambda>s. lot_id s \<noteq> l \<and> seller_id s \<notin> set ws \<and> seller_name s \<notin> set ws) sellers \<noteq> []
            \<longrightarrow> (\<exists>m pre post.
                   find_cheapest_loop cfg l None sellers = Inr (Some m) \<and>
                   filter (\<lambda>s. lot_id s \<noteq> l \<and> seller_id s \<notin> set ws \<and> seller_name s \<notin> set ws)
                     sellers = pre @ m # post \<and>
                   (\<forall>t\<in>set pre. price m < price t) \<and> (\<forall>t\<in>set post. price m \<le> price t)))"
proof (induction sellers)
  case Nil
  then show ?case by simp
next
  case (Cons s sellers)
  let ?P = "\<lambda>s. lot_id s \<noteq> l \<and> seller_id s \<notin> set ws \<and> seller_name s \<notin> set ws"
  show ?case
  proof (cases "?P s")
    case False
    have step: "find_cheapest_loop cfg l None (s # sellers) =
               find_cheapest_loop cfg l None sellers"
      by (rule find_cheapest_loop_skip [where cfg = cfg, OF wl False])
    from False have f: "filter ?P (s # sellers) = filter ?P sellers" by auto
    show ?thesis unfolding step f by (rule Cons.IH)
  next
    case True
    have step: "find_cheapest_loop cfg l None (s # sellers) =
               find_cheapest_loop cfg l (Some s) sellers"
      by (rule find_cheapest_loop_first [where cfg = cfg, OF wl True])
    from True have f: "filter ?P (s # sellers) = s # filter ?P sellers" by simp
    show ?thesis unfolding step f
      using find_cheapest_loop_Some [of cfg ws l s sellers, OF wl] by simp
  qed
qed

lemma example_dumper_lot_id: "config example_dumper ''lot_id'' = Some (PStr ''L0'')"
  by (simp add: example_dumper_def)

lemma example_dumper_whitelist: "config example_dumper ''whitelist'' = Some (PList [PStr ''B''])"
  by (simp add: example_dumper_def)

text \<open>
  C6. With a configured lot id, \<^verbatim>\<open>find_my_listing\<close> returns \<^verbatim>\<open>None\<close> exactly when no
  entry of the collection has that lot id, and when some entry has it the result is an
  entry of the collection with that lot id.
\<close>

theorem find_my_listing_spec:
  assumes "config d ''lot_id'' = Some l"
  shows "(find_my_listing d sellers = Inr None \<longleftrightarrow> (\<forall>s\<in>set sellers. lot_id s \<noteq> l)) \<and>
         ((\<exists>s\<in>set sellers. lot_id s = l) \<longrightarrow>
            (\<exists>s\<in>set sellers. lot_id s = l \<and> find_my_listing d sellers = Inr (Some s)))"
proof -
  have eq: "find_my_listing d sellers = Inr (find_my_listing_loop l sellers)"
    using assms by (simp add: find_my_listing_def)
  have none: "find_my_listing_loop l sellers = None \<longleftrightarrow> (\<forall>s\<in>set sellers. lot_id s \<noteq> l)"
    by (rule find_my_listing_loop_None)
  have some: "\<exists>s\<in>set sellers. lot_id s = l \<and> find_my_listing_loop l sellers = Some s"
    if "\<exists>s\<in>set sellers. lot_id s = l"
  proof -
    from that none obtain s where s: "find_my_listing_loop l sellers = Some s" by auto
    then have "s \<in> set sellers \<and> lot_id s = l"
      by (auto simp: find_my_listing_loop_first)
    with s show ?thesis by blast
  qed
  show ?thesis using none some by (simp add: eq)
qed

theorem find_my_listing_spec_witness:
  "config example_dumper ''lot_id'' = Some (PStr ''L0'') \<and>
   find_my_listing example_dumper [seller_A, my_seller, seller_B] = Inr (Some my_seller) \<and>
   find_my_listing example_dumper [seller_A, seller_B] = Inr None"
  using find_my_listing_spec [OF example_dumper_lot_id, of "[seller_A, my_seller, seller_B]"]
    find_my_listing_spec [OF example_dumper_lot_id, of "[seller_A, seller_B]"]
  by (simp add: example_dumper_lot_id my_seller_def seller_A_def seller_B_def)

lemma find_cheapest_competitor_loop:
  "config d ''lot_id'' = Some l \<Longrightarrow>
   find_cheapest_competitor d sellers = find_cheapest_loop (config d) l None sellers"
  by (simp add: find_cheapest_competitor_def)

lemma find_cheapest_loop_filter_self:
  "find_cheapest_loop cfg l acc (filter (\<lambda>s. lot_id s \<noteq> l) sellers) =
   find_cheapest_loop cfg l acc sellers"
  by (induction sellers arbitrary: acc) (simp_all split: sum.split bool.split option.split)

text \<open>
  C2. Whatever the collection, the configured lot id and the whitelist, an entry that
  \<^verbatim>\<open>find_cheapest_competitor\<close> returns is an entry of the collection whose lot id is
  not the configured one and whose seller id and seller name are both not in the
  whitelist (Python's \<^verbatim>\<open>in\<close> answered \<^verbatim>\<open>False\<close> for both; for a whitelist that is a
  list, neither is an element).
\<close>

theorem find_cheapest_competitor_excludes:
  assumes "find_cheapest_competitor d sellers = Inr (Some c)"
  shows "c \<in> set sellers \<and>
         (\<exists>l. config d ''lot_id'' = Some l \<and> lot_id c \<noteq> l) \<and>
         (\<exists>wl. config d ''whitelist'' = Some wl \<and>
               py_in (seller_id c) wl = Inr False \<and> py_in (seller_name c) wl = Inr False \<and>
               (\<forall>ws. wl = PList ws \<longrightarrow> seller_id c \<notin> set ws \<and> seller_name c \<notin> set ws))"
proof -
  from assms obtain l where l: "config d ''lot_id'' = Some l"
    by (auto simp: find_cheapest_competitor_def split: option.splits)
  with assms have "find_cheapest_loop (config d) l None sellers = Inr (Some c)"
    by (simp add: find_cheapest_competitor_loop)
  from find_cheapest_loop_result [OF this]
  have c: "c \<in> set sellers" "lot_id c \<noteq> l" "in_whitelist (config d) c = Inr False"
    by simp_all
  from in_whitelist_False [OF c(3)] obtain wl where
    wl: "config d ''whitelist'' = Some wl" "py_in (seller_id c) wl = Inr False"
      "py_in (seller_name c) wl = Inr False"
    by blast
  from wl(2,3) have "\<forall>ws. wl = PList ws \<longrightarrow> seller_id c \<notin> set ws \<and> seller_name c \<notin> set ws"
    by auto
  with c l wl show ?thesis by simp
qed

theorem find_cheapest_competitor_excludes_witness:
  "find_cheapest_competitor example_dumper [my_seller, seller_A, seller_B] = Inr (Some seller_A) \<and>
   seller_A \<in> set [my_seller, seller_A, seller_B] \<and>
   config example_dumper ''lot_id'' = Some (PStr ''L0'') \<and> lot_id seller_A \<noteq> PStr ''L0'' \<and>
   config example_dumper ''whitelist'' = Some (PList [PStr ''B'']) \<and>
   py_in (seller_id seller_A) (PList [PStr ''B'']) = Inr False \<and>
   py_in (seller_name seller_A) (PList [PStr ''B'']) = Inr False"
proof -
  have r: "find_cheapest_competitor example_dumper [my_seller, seller_A, seller_B]
             = Inr (Some seller_A)"
    by (simp add: find_cheapest_competitor_def in_whitelist_def example_dumper_def
        my_seller_def seller_A_def seller_B_def)
  from find_cheapest_competitor_excludes [OF r] r show ?thesis
    by (simp add: example_dumper_lot_id example_dumper_whitelist)
qed

text \<open>
  C3. With a configured lot id and a whitelist that is a list, call eligible the entries
  that are neither mine nor whitelisted, in input order. \<^verbatim>\<open>find_cheapest_competitor\<close>
  returns \<^verbatim>\<open>None\<close> exactly when there is no eligible entry; otherwise it returns an
  eligible entry whose price is strictly below the price of every eligible entry before
  it and at most the price of every eligible entry after it: the first of the cheapest.
\<close>

theorem find_cheapest_competitor_minimal:
  assumes "config d ''lot_id'' = Some l" and "config d ''whitelist'' = Some (PList ws)"
  shows "(find_cheapest_competitor d sellers = Inr None \<longleftrightarrow>
            filter (\<lambda>s. lot_id s \<noteq> l \<and> seller_id s \<notin> set ws \<and> seller_name s \<notin> set ws)
              sellers = []) \<and>
         (filter (\<lambda>s. lot_id s \<noteq> l \<and> seller_id s \<notin> set ws \<and> seller_name s \<notin> set ws)
            sellers \<noteq> [] \<longrightarrow>
            (\<exists>m pre post.
               find_cheapest_competitor d sellers = Inr (Some m) \<and>
               filter (\<lambda>s. lot_id s \<noteq> l \<and> seller_id s \<notin> set ws \<and> seller_name s \<notin> set ws)
                 sellers = pre @ m # post \<and>
               (\<forall>t\<in>set pre. price m < price t) \<and> (\<forall>t\<in>set post. price m \<le> price t)))"
proof -
  let ?E = "filter (\<lambda>s. lot_id s \<noteq> l \<and> seller_id s \<notin> set ws \<and> seller_name s \<notin> set ws) sellers"
  note loop = find_cheapest_loop_None [where cfg = "config d" and l = l and sellers = sellers,
      OF assms(2)]
  have eq: "find_cheapest_competitor d sellers = find_cheapest_loop (config d) l None sellers"
    by (rule find_cheapest_competitor_loop [OF assms(1)])
  have "find_cheapest_loop (config d) l None sellers = Inr None \<longleftrightarrow> ?E = []"
  proof
    assume n: "find_cheapest_loop (config d) l None sellers = Inr None"
    show "?E = []"
    proof (rule ccontr)
      assume "?E \<noteq> []"
      with loop obtain m where "find_cheapest_loop (config d) l None sellers = Inr (Some m)"
        by blast
      with n show False by simp
    qed
  next
    assume "?E = []"
    with loop show "find_cheapest_loop (config d) l None sellers = Inr None" by blast
  qed
  with loop show ?thesis unfolding eq by blast
qed

theorem find_cheapest_competitor_minimal_witness:
  "config example_dumper ''lot_id'' = Some (PStr ''L0'') \<and>
   config example_dumper ''whitelist'' = Some (PList [PStr ''B'']) \<and>
   find_cheapest_competitor example_dumper [my_seller, seller_A, seller_B, seller_C]
     = Inr (Some seller_A) \<and>
   find_cheapest_competitor example_dumper [my_seller, seller_B] = Inr None"
proof -
  have A: "find_cheapest_competitor example_dumper [my_seller, seller_A, seller_B, seller_C]
             = Inr (Some seller_A)"
    using find_cheapest_competitor_minimal [OF example_dumper_lot_id example_dumper_whitelist,
        of "[my_seller, seller_A, seller_B, seller_C]"]
    by (auto simp: my_seller_def seller_A_def seller_B_def seller_C_def
        append_eq_Cons_conv Cons_eq_append_conv)
  have B: "find_cheapest_competitor example_dumper [my_seller, seller_B] = Inr None"
    using find_cheapest_competitor_minimal [OF example_dumper_lot_id example_dumper_whitelist,
        of "[my_seller, seller_B]"]
    by (simp add: my_seller_def seller_B_def)
  from A B show ?thesis
    by (simp add: example_dumper_lot_id example_dumper_whitelist)
qed

text \<open>
  C10. When several entries carry the configured lot id, \<^verbatim>\<open>find_my_listing\<close> returns
  the first of them in input order, and \<^verbatim>\<open>find_cheapest_competitor\<close> leaves all of them
  out: its result is the result on the collection without them, and never one of them.
\<close>

theorem duplicate_self_listings:
  assumes "config d ''lot_id'' = Some l"
  shows "((\<exists>s\<in>set sellers. lot_id s = l) \<longrightarrow>
            (\<exists>pre s post. sellers = pre @ s # post \<and> lot_id s = l \<and>
               (\<forall>t\<in>set pre. lot_id t \<noteq> l) \<and> find_my_listing d sellers = Inr (Some s))) \<and>
         find_cheapest_competitor d sellers =
           find_cheapest_competitor d (filter (\<lambda>s. lot_id s \<noteq> l) sellers) \<and>
         (\<forall>c. find_cheapest_competitor d sellers = Inr (Some c) \<longrightarrow> lot_id c \<noteq> l)"
proof (intro conjI impI allI)
  assume "\<exists>s\<in>set sellers. lot_id s = l"
  then obtain s where s: "find_my_listing_loop l sellers = Some s"
    using find_my_listing_loop_None [of l sellers] by auto
  then obtain pre post where p: "sellers = pre @ s # post" "lot_id s = l"
    "\<forall>t\<in>set pre. lot_id t \<noteq> l"
    unfolding find_my_listing_loop_first by blast
  have "find_my_listing d sellers = Inr (Some s)"
    using assms s by (simp add: find_my_listing_def)
  with p show "\<exists>pre s post. sellers = pre @ s # post \<and> lot_id s = l \<and>
               (\<forall>t\<in>set pre. lot_id t \<noteq> l) \<and> find_my_listing d sellers = Inr (Some s)"
    by (intro exI [of _ pre] exI [of _ s] exI [of _ post] conjI)
next
  show "find_cheapest_competitor d sellers =
        find_cheapest_competitor d (filter (\<lambda>s. lot_id s \<noteq> l) sellers)"
    by (simp only: find_cheapest_competitor_loop [OF assms] find_cheapest_loop_filter_self)
next
  fix c
  assume "find_cheapest_competitor d sellers = Inr (Some c)"
  then have "find_cheapest_loop (config d) l None sellers = Inr (Some c)"
    by (simp only: find_cheapest_competitor_loop [OF assms])
  from find_cheapest_loop_result [OF this] show "lot_id c \<noteq> l" by simp
qed

theorem duplicate_self_listings_witness:
  "config example_dumper ''lot_id'' = Some (PStr ''L0'') \<and>
   find_my_listing example_dumper [seller_B, my_seller, seller_A, my_second]
     = Inr (Some my_seller) \<and>
   find_cheapest_competitor example_dumper [seller_B, my_seller, seller_A, my_second]
     = find_cheapest_competitor example_dumper [seller_B, seller_A] \<and>
   find_cheapest_competitor example_dumper [seller_B, my_seller, seller_A, my_second]
     = Inr (Some seller_A)"
proof -
  have f: "filter (\<lambda>s. lot_id s \<noteq> PStr ''L0'') [seller_B, my_seller, seller_A, my_second]
             = [seller_B, seller_A]"
    by (simp add: my_seller_def seller_A_def seller_B_def my_second_def)
  have r: "find_cheapest_competitor example_dumper [seller_B, seller_A] = Inr (Some seller_A)"
    by (simp add: find_cheapest_competitor_def in_whitelist_def example_dumper_def
        seller_A_def seller_B_def)
  have m: "find_my_listing example_dumper [seller_B, my_seller, seller_A, my_second]
             = Inr (Some my_seller)"
    by (simp add: find_my_listing_def example_dumper_lot_id
        my_seller_def seller_A_def seller_B_def my_second_def)
  have e: "find_cheapest_competitor example_dumper [seller_B, my_seller, seller_A, my_second]
             = find_cheapest_competitor example_dumper [seller_B, seller_A]"
    using duplicate_self_listings [OF example_dumper_lot_id,
        of "[seller_B, my_seller, seller_A, my_second]"]
    by (simp only: f)
  from e r m show ?thesis by (simp only: example_dumper_lot_id simp_thms)
qed

section \<open>The pricing decision: properties\<close>

text \<open>The searches for the exponent, unfolded on a numeral.\<close>

lemma exp_up_numeral:
  "exp_up (numeral k) e x =
     (if 2 ^ (e + 1) \<le> x then exp_up (pred_numeral k) (e + 1) x else e)"
  by (simp add: numeral_eq_Suc)

lemma exp_down_numeral:
  "exp_down (numeral k) e x =
     (if 1 \<le> x * 2 ^ e then e else exp_down (pred_numeral k) (e + 1) x)"
  by (simp add: numeral_eq_Suc)

lemmas double_eval =
  round_to_double_def exp_up_numeral exp_down_numeral half_even_def Let_def
  float_minus_def dbl_overflow_def

lemma decide_numeric:
  assumes "cfg ''price_decrease_amount'' = Some (PNum dec)"
    and "cfg ''min_price'' = Some (PNum mn)"
  shows "decide cfg my_price competitor_price =
     (if my_price \<le> competitor_price then Inr NoAction
      else if dbl_overflow \<le> \<bar>dec\<bar> then Inl OverflowError
      else Inr (SetPrice
             (if number_lt (float_minus competitor_price (round_to_double dec)) mn
              then Finite mn
              else float_minus competitor_price (round_to_double dec))))"
  using assms by (simp add: decide_def float_sub_def)




section \<open>Loading the configuration file: properties\<close>

lemma update_config_Cons:
  "update_config cfg (kv # items) =
     (if cfg (fst kv) \<noteq> None then update_config (cfg(fst kv \<mapsto> snd kv)) items
      else update_config cfg items)"
  by (cases kv) (simp del: not_None_eq)

lemma update_config_Cons_apply:
  "update_config cfg (kv # items) k =
     (if cfg (fst kv) \<noteq> None then update_config (cfg(fst kv \<mapsto> snd kv)) items k
      else update_config cfg items k)"
  by (simp only: update_config_Cons split: if_split) simp

lemma update_config_None: "update_config cfg items k = None \<longleftrightarrow> cfg k = None"
proof (induction items arbitrary: cfg)
  case Nil
  show ?case by simp
next
  case (Cons kv items)
  show ?case
    by (simp only: update_config_Cons Cons.IH fun_upd_apply split: if_split) auto
qed

lemma update_config_absent:
  "k \<notin> fst ` set items \<Longrightarrow> update_config cfg items k = cfg k"
proof (induction items arbitrary: cfg)
  case Nil
  show ?case by simp
next
  case (Cons kv items)
  then have k: "k \<noteq> fst kv" "k \<notin> fst ` set items" by auto
  show ?case
    using k by (simp add: update_config_Cons Cons.IH del: not_None_eq update_config.simps)
qed

lemma update_config_present:
  "distinct (map fst items) \<Longrightarrow> (k, v) \<in> set items \<Longrightarrow> cfg k \<noteq> None \<Longrightarrow>
   update_config cfg items k = Some v"
proof (induction items arbitrary: cfg)
  case Nil
  then show ?case by simp
next
  case (Cons kv items)
  from Cons.prems(1) have dist: "distinct (map fst items)" and fresh: "fst kv \<notin> fst ` set items"
    by simp_all
  show ?case
  proof (cases "(k, v) = kv")
    case True
    then have kv: "fst kv = k" "snd kv = v" by auto
    from fresh kv have "k \<notin> fst ` set items" by simp
    then have "update_config (cfg(k \<mapsto> v)) items k = Some v"
      by (simp add: update_config_absent del: not_None_eq update_config.simps)
    with Cons.prems(3) show ?thesis
      by (simp add: update_config_Cons kv del: not_None_eq update_config.simps)
  next
    case False
    with Cons.prems(2) have mem: "(k, v) \<in> set items" by simp
    have a: "update_config cfg items k = Some v"
      by (rule Cons.IH [of cfg, OF dist mem Cons.prems(3)])
    have "(cfg(fst kv \<mapsto> snd kv)) k \<noteq> None" using Cons.prems(3) by (simp del: not_None_eq)
    then have b: "update_config (cfg(fst kv \<mapsto> snd kv)) items k = Some v"
      by (rule Cons.IH [of "cfg(fst kv \<mapsto> snd kv)", OF dist mem])
    show ?thesis by (simp only: update_config_Cons_apply a b if_cancel)
  qed
qed

lemma update_config_unrecognised:
  "update_config cfg (filter (\<lambda>kv. cfg (fst kv) \<noteq> None) items) = update_config cfg items"
proof (induction items arbitrary: cfg)
  case Nil
  then show ?case by simp
next
  case (Cons kv items)
  show ?case
  proof (cases "cfg (fst kv) = None")
    case True
    then have "filter (\<lambda>kv. cfg (fst kv) \<noteq> None) (kv # items) =
               filter (\<lambda>kv. cfg (fst kv) \<noteq> None) items"
      and "update_config cfg (kv # items) = update_config cfg items"
      by (simp_all only: update_config_Cons filter.simps not_True_eq_False if_False simp_thms)
    then show ?thesis by (simp only: Cons.IH)
  next
    case False
    let ?cfg = "cfg(fst kv \<mapsto> snd kv)"
    from False have same: "(\<lambda>kv. ?cfg (fst kv) \<noteq> None) = (\<lambda>kv. cfg (fst kv) \<noteq> None)"
      by (auto simp del: not_None_eq)
    from False have f: "filter (\<lambda>kv. cfg (fst kv) \<noteq> None) (kv # items) =
               kv # filter (\<lambda>kv. cfg (fst kv) \<noteq> None) items"
      by (simp del: not_None_eq)
    from False have "update_config cfg (filter (\<lambda>kv. cfg (fst kv) \<noteq> None) (kv # items)) =
               update_config ?cfg (filter (\<lambda>kv. cfg (fst kv) \<noteq> None) items)"
      by (simp add: f update_config_Cons del: not_None_eq update_config.simps filter.simps)
    also have "\<dots> = update_config ?cfg (filter (\<lambda>kv. ?cfg (fst kv) \<noteq> None) items)"
      by (simp only: same)
    also have "\<dots> = update_config ?cfg items" by (rule Cons.IH)
    also from False have "\<dots> = update_config cfg (kv # items)"
      by (simp add: update_config_Cons del: not_None_eq update_config.simps)
    finally show ?thesis .
  qed
qed

text \<open>
  C9. Whatever the file, \<^verbatim>\<open>load_config_file\<close> leaves the set of keys of the
  configuration as it was; a key with no item in the file keeps its value; the items
  whose key is not in the configuration change nothing, the call returning exactly what
  it returns for the file without them; and the other attributes of the object are
  untouched.
\<close>

theorem load_config_file_frame:
  "dom (config (snd (load_config_file d file))) = dom (config d) \<and>
   (\<forall>k. (\<forall>items. file = Inr (JObject items) \<longrightarrow> k \<notin> fst ` set items) \<longrightarrow>
        config (snd (load_config_file d file)) k = config d k) \<and>
   (\<forall>items. file = Inr (JObject items) \<longrightarrow>
        load_config_file d file =
          load_config_file d (Inr (JObject (filter (\<lambda>kv. config d (fst kv) \<noteq> None) items)))) \<and>
   bot (snd (load_config_file d file)) = bot d \<and>
   funpay_account (snd (load_config_file d file)) = funpay_account d"
proof (cases "file")
  case (Inl e)
  then show ?thesis by (simp add: load_config_file_def)
next
  case (Inr doc)
  show ?thesis
  proof (cases doc)
    case (JObject items)
    have dom: "dom (update_config (config d) items) = dom (config d)"
      using update_config_None [of "config d" items] by (auto simp: dom_def simp del: not_None_eq)
    have l: "load_config_file d (Inr (JObject xs)) =
               (validate (update_config (config d) xs) required_fields,
                d\<lparr>config := update_config (config d) xs\<rparr>)" for xs
      by (simp add: load_config_file_def Let_def)
    show ?thesis
      unfolding Inr JObject l
      by (simp add: dom update_config_absent update_config_unrecognised del: not_None_eq)
  qed (simp_all add: Inr load_config_file_def)
qed

theorem load_config_file_frame_witness:
  "config (snd (load_config_file fresh_dumper (Inr (JObject file_min_price_five)))) ''colour''
     = None \<and>
   config (snd (load_config_file fresh_dumper (Inr (JObject file_min_price_five))))
     ''price_decrease_amount'' = Some (PNum 1) \<and>
   ''colour'' \<in> fst ` set file_min_price_five \<and>
   ''price_decrease_amount'' \<notin> fst ` set file_min_price_five \<and>
   ''colour'' \<notin> dom (config fresh_dumper) \<and>
   load_config_file fresh_dumper (Inr (JObject file_min_price_five)) =
     load_config_file fresh_dumper
       (Inr (JObject [(''game_id'', PStr ''G''), (''server_id'', PStr ''S''),
          (''lot_id'', PStr ''L0''), (''min_price'', PNum 5)]))"
proof -
  have f: "filter (\<lambda>kv. config fresh_dumper (fst kv) \<noteq> None) file_min_price_five =
           [(''game_id'', PStr ''G''), (''server_id'', PStr ''S''),
            (''lot_id'', PStr ''L0''), (''min_price'', PNum 5)]"
    by (simp add: file_min_price_five_def fresh_dumper_def CONFIG_def)
  have a: "''price_decrease_amount'' \<notin> fst ` set file_min_price_five"
    and b: "''colour'' \<in> fst ` set file_min_price_five"
    by (simp_all add: file_min_price_five_def)
  have c: "config fresh_dumper ''price_decrease_amount'' = Some (PNum 1)"
    and n: "''colour'' \<notin> dom (config fresh_dumper)"
    by (simp_all add: fresh_dumper_def CONFIG_def dom_def)
  note frame = load_config_file_frame [of fresh_dumper "Inr (JObject file_min_price_five)"]
  from frame
  have d: "dom (config (snd (load_config_file fresh_dumper (Inr (JObject file_min_price_five)))))
          = dom (config fresh_dumper)"
    by (rule conjunct1)
  from frame a
  have p: "config (snd (load_config_file fresh_dumper (Inr (JObject file_min_price_five))))
           ''price_decrease_amount'' = config fresh_dumper ''price_decrease_amount''"
    by blast
  from frame
  have e: "load_config_file fresh_dumper (Inr (JObject file_min_price_five)) =
         load_config_file fresh_dumper
           (Inr (JObject (filter (\<lambda>kv. config fresh_dumper (fst kv) \<noteq> None)
              file_min_price_five)))"
    by blast
  from d n
  have "config (snd (load_config_file fresh_dumper (Inr (JObject file_min_price_five))))
          ''colour'' = None"
    by (metis domIff)
  with p c a b n e [unfolded f] show ?thesis by (simp only: simp_thms)
qed

lemma validate_required:
  assumes "cfg ''game_id'' = Some g" "cfg ''server_id'' = Some s" "cfg ''lot_id'' = Some l"
    "cfg ''min_price'' = Some m" "truthy g" "truthy s" "truthy l"
  shows "validate cfg required_fields = (if truthy m then Loaded else RequiredMissing ''min_price'')"
  using assms by (simp add: required_fields_def)

text \<open>
  C4, as the code has it. For a configuration file (a JSON object, so with distinct
  keys) whose \<^verbatim>\<open>game_id\<close>, \<^verbatim>\<open>server_id\<close> and \<^verbatim>\<open>lot_id\<close> are non-empty and whose
  \<^verbatim>\<open>min_price\<close> is the number \<open>m\<close>, loaded into a configuration that has the four
  required keys, \<^verbatim>\<open>load_config_file\<close> returns \<^verbatim>\<open>True\<close> exactly when \<open>m\<close> is not 0; for
  \<open>m = 0\<close> it reports \<^verbatim>\<open>min_price\<close> as missing or empty and returns \<^verbatim>\<open>False\<close>.
\<close>

theorem load_config_file_min_price:
  assumes "distinct (map fst items)"
    and "\<forall>f\<in>set required_fields. config d f \<noteq> None"
    and "(''game_id'', g) \<in> set items" and "truthy g"
    and "(''server_id'', s) \<in> set items" and "truthy s"
    and "(''lot_id'', l) \<in> set items" and "truthy l"
    and "(''min_price'', PNum m) \<in> set items"
  shows "fst (load_config_file d (Inr (JObject items))) =
           (if m = 0 then RequiredMissing ''min_price'' else Loaded) \<and>
         returned (fst (load_config_file d (Inr (JObject items)))) = (m \<noteq> 0)"
proof -
  let ?cfg = "update_config (config d) items"
  from assms(2) have k: "config d ''game_id'' \<noteq> None" "config d ''server_id'' \<noteq> None"
    "config d ''lot_id'' \<noteq> None" "config d ''min_price'' \<noteq> None"
    by (simp_all add: required_fields_def del: not_None_eq)
  have "?cfg ''game_id'' = Some g" "?cfg ''server_id'' = Some s" "?cfg ''lot_id'' = Some l"
    "?cfg ''min_price'' = Some (PNum m)"
    by (rule update_config_present [where cfg = "config d", OF assms(1) assms(3) k(1)]
        update_config_present [where cfg = "config d", OF assms(1) assms(5) k(2)]
        update_config_present [where cfg = "config d", OF assms(1) assms(7) k(3)]
        update_config_present [where cfg = "config d", OF assms(1) assms(9) k(4)])+
  from validate_required [OF this assms(4,6,8)]
  have v: "validate ?cfg required_fields = (if m = 0 then RequiredMissing ''min_price'' else Loaded)"
    by simp
  have "fst (load_config_file d (Inr (JObject items))) = validate ?cfg required_fields"
    by (simp add: load_config_file_def Let_def)
  with v show ?thesis by simp
qed

theorem load_config_file_min_price_witness:
  "fst (load_config_file fresh_dumper (Inr (JObject file_min_price_zero)))
     = RequiredMissing ''min_price'' \<and>
   fst (load_config_file fresh_dumper (Inr (JObject file_min_price_five))) = Loaded \<and>
   returned (fst (load_config_file fresh_dumper (Inr (JObject file_min_price_five))))"
proof -
  have r: "\<forall>f\<in>set required_fields. config fresh_dumper f \<noteq> None"
    by (simp add: required_fields_def fresh_dumper_def CONFIG_def)
  have z: "distinct (map fst file_min_price_zero)"
    "(''game_id'', PStr ''G'') \<in> set file_min_price_zero"
    "(''server_id'', PStr ''S'') \<in> set file_min_price_zero"
    "(''lot_id'', PStr ''L0'') \<in> set file_min_price_zero"
    "(''min_price'', PNum 0) \<in> set file_min_price_zero"
    by (simp_all add: file_min_price_zero_def)
  have f: "distinct (map fst file_min_price_five)"
    "(''game_id'', PStr ''G'') \<in> set file_min_price_five"
    "(''server_id'', PStr ''S'') \<in> set file_min_price_five"
    "(''lot_id'', PStr ''L0'') \<in> set file_min_price_five"
    "(''min_price'', PNum 5) \<in> set file_min_price_five"
    by (simp_all add: file_min_price_five_def)
  have t: "truthy (PStr ''G'')" "truthy (PStr ''S'')" "truthy (PStr ''L0'')" by simp_all
  from load_config_file_min_price [OF z(1) r z(2) t(1) z(3) t(2) z(4) t(3) z(5)]
    load_config_file_min_price [OF f(1) r f(2) t(1) f(3) t(2) f(4) t(3) f(5)]
  show ?thesis by simp
qed

text \<open>
  The default configuration loaded with a file that has the three identifiers and a
  \<^verbatim>\<open>min_price\<close> of 0: the call reports \<^verbatim>\<open>min_price\<close> and returns \<^verbatim>\<open>False\<close>.
\<close>

theorem min_price_zero_rejected:
  "truthy (PStr ''G'') \<and> truthy (PStr ''S'') \<and> truthy (PStr ''L0'') \<and>
   fst (load_config_file \<lparr>config = CONFIG Map.empty, bot = None, funpay_account = None\<rparr>
     (Inr (JObject [(''game_id'', PStr ''G''), (''server_id'', PStr ''S''),
        (''lot_id'', PStr ''L0''), (''min_price'', PNum 0)]))) = RequiredMissing ''min_price'' \<and>
   returned (fst (load_config_file \<lparr>config = CONFIG Map.empty, bot = None, funpay_account = None\<rparr>
     (Inr (JObject [(''game_id'', PStr ''G''), (''server_id'', PStr ''S''),
        (''lot_id'', PStr ''L0''), (''min_price'', PNum 0)])))) = False"
  by (simp add: load_config_file_def Let_def CONFIG_def required_fields_def)

section \<open>One cycle: properties\<close>

lemma login_to_funpay_result:
  assumes "login_to_funpay w d = (ok, d', c)"
  shows "config d' = config d \<and> bot d' = bot d \<and>
         (\<forall>x\<in>set c. \<exists>u p. x = CallAccount u p) \<and>
         (if ok then funpay_account d' \<noteq> None else d' = d)"
  using assms
  by (auto simp: login_to_funpay_def split: option.splits if_splits)

lemma get_market_prices_calls:
  assumes "get_market_prices w d = (sellers, c)"
  shows "\<forall>x\<in>set c. \<exists>g s. x = CallGetLots g s"
  using assms
  by (auto simp: get_market_prices_def split: option.splits sum.splits)

lemma update_my_price_result:
  assumes "update_my_price w d p = (ok, c)"
  shows "(\<not> ok \<and> c = []) \<or>
         (\<exists>a l. funpay_account d = Some a \<and> config d ''lot_id'' = Some l \<and>
                c = [CallChangeLotPrice l p] \<and> ok = (change_lot_price w a l p = None))"
  using assms
  by (auto simp: update_my_price_def split: option.splits)

lemma send_telegram_notification_calls:
  assumes "send_telegram_notification w d m = (ok, c)"
  shows "c = [] \<or> (\<exists>chat. c = [CallSendMessage chat m])"
  using assms
  by (auto simp: send_telegram_notification_def split: option.splits)

lemma cycle_start:
  obtains ok d c1 where
    "(if funpay_account d0 = None then login_to_funpay w d0 else (True, d0, [])) = (ok, d, c1)"
    "config d = config d0" "bot d = bot d0" "\<forall>x\<in>set c1. \<exists>u p. x = CallAccount u p"
    "ok \<longrightarrow> funpay_account d \<noteq> None" "\<not> ok \<longrightarrow> d = d0"
proof (cases "funpay_account d0 = None")
  case True
  obtain ok d c1 where l: "login_to_funpay w d0 = (ok, d, c1)"
    by (cases "login_to_funpay w d0") auto
  from login_to_funpay_result [OF l] True l that [of ok d c1] show ?thesis
    by (auto split: if_splits)
next
  case False
  with that [of True d0 "[]"] show ?thesis by auto
qed

lemma check_and_update_price_unfold:
  assumes L: "(if funpay_account d0 = None then login_to_funpay w d0 else (True, d0, [])) = (ok, d, c1)"
    and G: "get_market_prices w d = (sellers, c2)"
  shows "check_and_update_price w d0 =
    (if \<not> ok then \<lparr>raised = None, dumper = d, calls = c1\<rparr>
     else if sellers = [] then \<lparr>raised = None, dumper = d, calls = c1 @ c2\<rparr>
     else
       (case find_my_listing d sellers of
          Inl e \<Rightarrow> \<lparr>raised = Some e, dumper = d, calls = c1 @ c2\<rparr>
        | Inr None \<Rightarrow> \<lparr>raised = None, dumper = d, calls = c1 @ c2\<rparr>
        | Inr (Some my_listing) \<Rightarrow>
            (case find_cheapest_competitor d sellers of
               Inl e \<Rightarrow> \<lparr>raised = Some e, dumper = d, calls = c1 @ c2\<rparr>
             | Inr None \<Rightarrow> \<lparr>raised = None, dumper = d, calls = c1 @ c2\<rparr>
             | Inr (Some cheapest_competitor) \<Rightarrow>
                 (case decide (config d) (price my_listing) (price cheapest_competitor) of
                    Inl e \<Rightarrow> \<lparr>raised = Some e, dumper = d, calls = c1 @ c2\<rparr>
                  | Inr NoAction \<Rightarrow> \<lparr>raised = None, dumper = d, calls = c1 @ c2\<rparr>
                  | Inr (SetPrice new_price) \<Rightarrow>
                      \<lparr>raised = None, dumper = d,
                       calls = c1 @ c2 @ snd (update_my_price w d new_price) @
                         (if fst (update_my_price w d new_price)
                          then snd (send_telegram_notification w d
                                 (Notification (price my_listing) new_price
                                    (seller_name cheapest_competitor)
                                    (price cheapest_competitor)))
                          else [])\<rparr>))))"
  unfolding check_and_update_price_def L Let_def prod.case G
  by (simp split: sum.split option.split decision.split prod.split)

lemma check_and_update_price_dumper:
  assumes "(if funpay_account d0 = None then login_to_funpay w d0 else (True, d0, [])) = (ok, d, c1)"
  shows "dumper (check_and_update_price w d0) = d"
proof -
  obtain sellers c2 where G: "get_market_prices w d = (sellers, c2)"
    by (cases "get_market_prices w d") auto
  show ?thesis
    unfolding check_and_update_price_unfold [OF assms G]
    by (simp split: sum.split option.split decision.split)
qed

lemma check_and_update_price_paths:
  assumes L: "(if funpay_account d0 = None then login_to_funpay w d0 else (True, d0, [])) = (ok, d, c1)"
    and G: "get_market_prices w d = (sellers, c2)"
  shows "calls (check_and_update_price w d0) = c1 \<or>
         calls (check_and_update_price w d0) = c1 @ c2 \<or>
         (\<exists>me rival p.
            ok \<and> sellers \<noteq> [] \<and> find_my_listing d sellers = Inr (Some me) \<and>
            find_cheapest_competitor d sellers = Inr (Some rival) \<and>
            decide (config d) (price me) (price rival) = Inr (SetPrice p) \<and>
            raised (check_and_update_price w d0) = None \<and>
            calls (check_and_update_price w d0) =
              c1 @ c2 @ snd (update_my_price w d p) @
                (if fst (update_my_price w d p)
                 then snd (send_telegram_notification w d
                        (Notification (price me) p (seller_name rival) (price rival)))
                 else []))"
proof (cases "\<exists>me rival p.
            ok \<and> sellers \<noteq> [] \<and> find_my_listing d sellers = Inr (Some me) \<and>
            find_cheapest_competitor d sellers = Inr (Some rival) \<and>
            decide (config d) (price me) (price rival) = Inr (SetPrice p)")
  case True
  then obtain me rival p where
    a: "ok" "sellers \<noteq> []" "find_my_listing d sellers = Inr (Some me)"
      "find_cheapest_competitor d sellers = Inr (Some rival)"
      "decide (config d) (price me) (price rival) = Inr (SetPrice p)"
    by blast
  have "raised (check_and_update_price w d0) = None \<and>
        calls (check_and_update_price w d0) =
              c1 @ c2 @ snd (update_my_price w d p) @
                (if fst (update_my_price w d p)
                 then snd (send_telegram_notification w d
                        (Notification (price me) p (seller_name rival) (price rival)))
                 else [])"
    unfolding check_and_update_price_unfold [OF L G] by (simp add: a)
  with a show ?thesis by blast
next
  case False
  then have "calls (check_and_update_price w d0) = c1 \<or>
             calls (check_and_update_price w d0) = c1 @ c2"
    unfolding check_and_update_price_unfold [OF L G]
    by (simp split: sum.split option.split decision.split) blast
  then show ?thesis by blast
qed

lemma to_sellers_fails:
  "l \<in> set lots \<Longrightarrow> price_float l = Inl e \<Longrightarrow> \<exists>e'. to_sellers lots = Inl e'"
  by (induction lots) (auto split: sum.splits)

text \<open>
  C7. In every cycle, a message is sent only right after a call of \<^verbatim>\<open>change_lot_price\<close>
  that returned: the calls of the cycle then end with that price update followed by the
  message. So when the price update raises, the cycle sends no message.
\<close>

theorem notification_only_after_update:
  "(\<forall>chat msg. CallSendMessage chat msg \<in> set (calls (check_and_update_price w d0)) \<longrightarrow>
      (\<exists>a l p pre.
         funpay_account (dumper (check_and_update_price w d0)) = Some a \<and>
         config d0 ''lot_id'' = Some l \<and> change_lot_price w a l p = None \<and>
         calls (check_and_update_price w d0) =
           pre @ [CallChangeLotPrice l p, CallSendMessage chat msg])) \<and>
   ((\<forall>a l p. change_lot_price w a l p \<noteq> None) \<longrightarrow>
      (\<forall>chat msg. CallSendMessage chat msg \<notin> set (calls (check_and_update_price w d0))))"
proof -
  obtain ok d c1 where
    L: "(if funpay_account d0 = None then login_to_funpay w d0 else (True, d0, [])) = (ok, d, c1)"
    and cfg: "config d = config d0" and c1: "\<forall>x\<in>set c1. \<exists>u p. x = CallAccount u p"
    by (rule cycle_start [of d0 w])
  obtain sellers c2 where G: "get_market_prices w d = (sellers, c2)"
    by (cases "get_market_prices w d") auto
  note c2 = get_market_prices_calls [OF G]
  note dm = check_and_update_price_dumper [OF L]
  have main: "\<exists>a l p pre.
         funpay_account d = Some a \<and> config d0 ''lot_id'' = Some l \<and>
         change_lot_price w a l p = None \<and>
         calls (check_and_update_price w d0) =
           pre @ [CallChangeLotPrice l p, CallSendMessage chat msg]"
    if send: "CallSendMessage chat msg \<in> set (calls (check_and_update_price w d0))"
    for chat msg
  proof -
    from check_and_update_price_paths [OF L G] show ?thesis
    proof (elim disjE exE conjE)
      assume "calls (check_and_update_price w d0) = c1"
      with send c1 show ?thesis by auto
    next
      assume "calls (check_and_update_price w d0) = c1 @ c2"
      with send c1 c2 show ?thesis by auto
    next
      fix me rival p
      assume c: "calls (check_and_update_price w d0) =
              c1 @ c2 @ snd (update_my_price w d p) @
                (if fst (update_my_price w d p)
                 then snd (send_telegram_notification w d
                        (Notification (price me) p (seller_name rival) (price rival)))
                 else [])"
      obtain upd c3 where U: "update_my_price w d p = (upd, c3)"
        by (cases "update_my_price w d p") auto
      obtain sent c4 where S: "send_telegram_notification w d
          (Notification (price me) p (seller_name rival) (price rival)) = (sent, c4)"
        by (cases "send_telegram_notification w d
          (Notification (price me) p (seller_name rival) (price rival))") auto
      from c U S have cs: "calls (check_and_update_price w d0) =
          c1 @ c2 @ c3 @ (if upd then c4 else [])"
        by simp
      from update_my_price_result [OF U] have
        u: "(\<not> upd \<and> c3 = []) \<or>
            (\<exists>a l. funpay_account d = Some a \<and> config d ''lot_id'' = Some l \<and>
               c3 = [CallChangeLotPrice l p] \<and> upd = (change_lot_price w a l p = None))" .
      note s = send_telegram_notification_calls [OF S]
      from send cs c1 c2 have in34: "CallSendMessage chat msg \<in> set (c3 @ (if upd then c4 else []))"
        by auto
      with u have upd: upd by (auto split: if_splits)
      with u obtain a l where al: "funpay_account d = Some a" "config d ''lot_id'' = Some l"
        "c3 = [CallChangeLotPrice l p]" "change_lot_price w a l p = None"
        by auto
      from in34 upd al(3) have "CallSendMessage chat msg \<in> set c4" by simp
      with s have c4: "c4 = [CallSendMessage chat msg]" by auto
      from cs upd al(3) c4 have "calls (check_and_update_price w d0) =
          (c1 @ c2) @ [CallChangeLotPrice l p, CallSendMessage chat msg]"
        by simp
      with al cfg show ?thesis by auto
    qed
  qed
  show ?thesis
  proof (intro conjI allI impI)
    fix chat msg
    assume "CallSendMessage chat msg \<in> set (calls (check_and_update_price w d0))"
    from main [OF this] show "\<exists>a l p pre.
         funpay_account (dumper (check_and_update_price w d0)) = Some a \<and>
         config d0 ''lot_id'' = Some l \<and> change_lot_price w a l p = None \<and>
         calls (check_and_update_price w d0) =
           pre @ [CallChangeLotPrice l p, CallSendMessage chat msg]"
      unfolding dm .
  next
    fix chat msg
    assume fails: "\<forall>a l p. change_lot_price w a l p \<noteq> None"
    show "CallSendMessage chat msg \<notin> set (calls (check_and_update_price w d0))"
    proof
      assume "CallSendMessage chat msg \<in> set (calls (check_and_update_price w d0))"
      from main [OF this] fails show False by blast
    qed
  qed
qed

text \<open>
  C8. \<^verbatim>\<open>get_market_prices\<close> returns the empty list, and raises nothing, when there is
  no session, when a configuration key is missing, when the listing query raises, and
  when a price of a lot cannot be converted. A cycle whose snapshot is empty returns
  without an exception, having called nothing but the login and the listing query.
\<close>

theorem snapshot_failure_aborts_cycle:
  "(funpay_account d = None \<longrightarrow> get_market_prices w d = ([], [])) \<and>
   (config d ''game_id'' = None \<or> config d ''server_id'' = None \<longrightarrow>
      fst (get_market_prices w d) = []) \<and>
   (\<forall>a g s. funpay_account d = Some a \<and> config d ''game_id'' = Some g \<and>
        config d ''server_id'' = Some s \<and> (\<exists>e. get_lots w a g s = Inl e) \<longrightarrow>
      fst (get_market_prices w d) = []) \<and>
   (\<forall>a g s lots. funpay_account d = Some a \<and> config d ''game_id'' = Some g \<and>
        config d ''server_id'' = Some s \<and> get_lots w a g s = Inr lots \<and>
        (\<exists>l\<in>set lots. \<exists>e. price_float l = Inl e) \<longrightarrow>
      fst (get_market_prices w d) = []) \<and>
   (fst (get_market_prices w (dumper (check_and_update_price w d0))) = [] \<longrightarrow>
      raised (check_and_update_price w d0) = None \<and>
      (\<forall>c\<in>set (calls (check_and_update_price w d0)).
          (\<exists>u p. c = CallAccount u p) \<or> (\<exists>g s. c = CallGetLots g s)))"
proof -
  have A: "funpay_account d = None \<longrightarrow> get_market_prices w d = ([], [])"
    by (simp add: get_market_prices_def)
  have B: "config d ''game_id'' = None \<or> config d ''server_id'' = None \<longrightarrow>
      fst (get_market_prices w d) = []"
    by (auto simp: get_market_prices_def split: option.splits)
  have C: "\<forall>a g s. funpay_account d = Some a \<and> config d ''game_id'' = Some g \<and>
        config d ''server_id'' = Some s \<and> (\<exists>e. get_lots w a g s = Inl e) \<longrightarrow>
      fst (get_market_prices w d) = []"
    by (auto simp: get_market_prices_def)
  have D: "\<forall>a g s lots. funpay_account d = Some a \<and> config d ''game_id'' = Some g \<and>
        config d ''server_id'' = Some s \<and> get_lots w a g s = Inr lots \<and>
        (\<exists>l\<in>set lots. \<exists>e. price_float l = Inl e) \<longrightarrow>
      fst (get_market_prices w d) = []"
  proof (intro allI impI)
    fix a g s lots
    assume a: "funpay_account d = Some a \<and> config d ''game_id'' = Some g \<and>
        config d ''server_id'' = Some s \<and> get_lots w a g s = Inr lots \<and>
        (\<exists>l\<in>set lots. \<exists>e. price_float l = Inl e)"
    then obtain e where "to_sellers lots = Inl e" using to_sellers_fails [of _ lots] by blast
    with a show "fst (get_market_prices w d) = []"
      by (simp add: get_market_prices_def)
  qed
  have E: "fst (get_market_prices w (dumper (check_and_update_price w d0))) = [] \<longrightarrow>
      raised (check_and_update_price w d0) = None \<and>
      (\<forall>c\<in>set (calls (check_and_update_price w d0)).
          (\<exists>u p. c = CallAccount u p) \<or> (\<exists>g s. c = CallGetLots g s))"
  proof
    assume empty: "fst (get_market_prices w (dumper (check_and_update_price w d0))) = []"
    obtain ok d c1 where
      L: "(if funpay_account d0 = None then login_to_funpay w d0 else (True, d0, [])) = (ok, d, c1)"
      and c1: "\<forall>x\<in>set c1. \<exists>u p. x = CallAccount u p"
      by (rule cycle_start [of d0 w])
    obtain sellers c2 where G: "get_market_prices w d = (sellers, c2)"
      by (cases "get_market_prices w d") auto
    note c2 = get_market_prices_calls [OF G]
    from empty G have "sellers = []"
      unfolding check_and_update_price_dumper [OF L] by simp
    then have "check_and_update_price w d0 =
        \<lparr>raised = None, dumper = d, calls = (if ok then c1 @ c2 else c1)\<rparr>"
      unfolding check_and_update_price_unfold [OF L G] by simp
    with c1 c2 show "raised (check_and_update_price w d0) = None \<and>
        (\<forall>c\<in>set (calls (check_and_update_price w d0)).
            (\<exists>u p. c = CallAccount u p) \<or> (\<exists>g s. c = CallGetLots g s))"
      by auto
  qed
  show ?thesis by (intro conjI) (rule A B C D E)+
qed

text \<open>
  C5, as the code has it. Take a cycle in which my listing and a cheapest competitor
  are found, my price is above the competitor's, and the minimum price is at least the
  competitor's price. When the decrease converts to a float, the decision is
  \<open>SetPrice\<close> of the clamped value (the minimum price when the float difference is
  below it), whatever its relation to my price, and the cycle calls
  \<^verbatim>\<open>change_lot_price\<close> with that value for my lot. When the decrease is too large for a
  float, the cycle ends with an \<^verbatim>\<open>OverflowError\<close> and does not call
  \<^verbatim>\<open>change_lot_price\<close>.
\<close>

theorem floor_above_competitor_still_updates:
  assumes "d = dumper (check_and_update_price w d0)"
    and "find_my_listing d (fst (get_market_prices w d)) = Inr (Some me)"
    and "find_cheapest_competitor d (fst (get_market_prices w d)) = Inr (Some rival)"
    and "price rival < price me"
    and "config d ''price_decrease_amount'' = Some (PNum dec)"
    and "config d ''min_price'' = Some (PNum mn)"
    and "price rival \<le> mn"
  shows "(\<bar>dec\<bar> < dbl_overflow \<longrightarrow>
            decide (config d) (price me) (price rival) =
              Inr (SetPrice
                     (if number_lt (float_minus (price rival) (round_to_double dec)) mn
                      then Finite mn
                      else float_minus (price rival) (round_to_double dec))) \<and>
            CallChangeLotPrice (lot_id me)
                (if number_lt (float_minus (price rival) (round_to_double dec)) mn
                 then Finite mn
                 else float_minus (price rival) (round_to_double dec))
              \<in> set (calls (check_and_update_price w d0))) \<and>
         (dbl_overflow \<le> \<bar>dec\<bar> \<longrightarrow>
            raised (check_and_update_price w d0) = Some OverflowError \<and>
            (\<forall>l p. CallChangeLotPrice l p \<notin> set (calls (check_and_update_price w d0))))"
proof -
  let ?p = "if number_lt (float_minus (price rival) (round_to_double dec)) mn
            then Finite mn else float_minus (price rival) (round_to_double dec)"
  obtain ok d' c1 where
    L: "(if funpay_account d0 = None then login_to_funpay w d0 else (True, d0, [])) = (ok, d', c1)"
    and c1: "\<forall>x\<in>set c1. \<exists>u p. x = CallAccount u p"
    and okacc: "ok \<longrightarrow> funpay_account d' \<noteq> None" and nok: "\<not> ok \<longrightarrow> d' = d0"
    by (rule cycle_start [of d0 w])
  from assms(1) have dd: "d' = d" by (simp add: check_and_update_price_dumper [OF L])
  obtain sellers c2 where G: "get_market_prices w d = (sellers, c2)"
    by (cases "get_market_prices w d") auto
  note c2 = get_market_prices_calls [OF G]
  from assms(2) G have ne: "sellers \<noteq> []"
    by (auto simp: find_my_listing_def split: option.splits)
  with G have acc: "funpay_account d \<noteq> None"
    by (cases "funpay_account d") (simp_all add: get_market_prices_def)
  have ok: ok
  proof (rule ccontr)
    assume "\<not> ok"
    with nok L dd acc show False by (auto split: if_splits)
  qed
  from assms(2,3) G have f: "find_my_listing d sellers = Inr (Some me)"
    "find_cheapest_competitor d sellers = Inr (Some rival)"
    by simp_all
  note dn = decide_numeric [OF assms(5,6), of "price me" "price rival"]
  have A: "decide (config d) (price me) (price rival) = Inr (SetPrice ?p) \<and>
           CallChangeLotPrice (lot_id me) ?p \<in> set (calls (check_and_update_price w d0))"
    if fits: "\<bar>dec\<bar> < dbl_overflow"
  proof -
    have dec: "decide (config d) (price me) (price rival) = Inr (SetPrice ?p)"
      using assms(4) fits by (simp add: dn)
    from assms(2) G obtain l where l: "config d ''lot_id'' = Some l" and "lot_id me = l"
      by (auto simp: find_my_listing_def find_my_listing_loop_first split: option.splits)
    with acc have upd: "snd (update_my_price w d ?p) = [CallChangeLotPrice (lot_id me) ?p]"
      by (auto simp: update_my_price_def split: option.splits)
    have "calls (check_and_update_price w d0) =
            c1 @ c2 @ snd (update_my_price w d ?p) @
              (if fst (update_my_price w d ?p)
               then snd (send_telegram_notification w d
                      (Notification (price me) ?p (seller_name rival) (price rival)))
               else [])"
      unfolding check_and_update_price_unfold [OF L [unfolded dd] G]
      using ok ne f dec by simp
    with upd have "CallChangeLotPrice (lot_id me) ?p \<in> set (calls (check_and_update_price w d0))"
      by simp
    with dec show ?thesis by (rule conjI)
  qed
  have B: "raised (check_and_update_price w d0) = Some OverflowError \<and>
           (\<forall>l p. CallChangeLotPrice l p \<notin> set (calls (check_and_update_price w d0)))"
    if big: "dbl_overflow \<le> \<bar>dec\<bar>"
  proof -
    have dec: "decide (config d) (price me) (price rival) = Inl OverflowError"
      using assms(4) big by (simp add: dn)
    have "check_and_update_price w d0 =
            \<lparr>raised = Some OverflowError, dumper = d, calls = c1 @ c2\<rparr>"
      unfolding check_and_update_price_unfold [OF L [unfolded dd] G]
      using ok ne f dec by simp
    with c1 c2 show ?thesis by auto
  qed
  from A B show ?thesis by blast
qed

lemma example_market:
  "get_market_prices example_world example_dumper =
     ([my_seller, seller_A, seller_B], [CallGetLots (PStr ''G'') (PStr ''S'')])"
  by (simp add: get_market_prices_def example_world_def example_dumper_def example_lots_def
      my_seller_def seller_A_def seller_B_def)

lemma example_cycle:
  "check_and_update_price example_world example_dumper =
     \<lparr>raised = None, dumper = example_dumper,
      calls = [CallGetLots (PStr ''G'') (PStr ''S''), CallChangeLotPrice (PStr ''L0'') (Finite 89),
               CallSendMessage (PStr ''C'') (Notification 100 (Finite 89) (PStr ''A'') 90)]\<rparr>"
proof -
  have L: "(if funpay_account example_dumper = None
            then login_to_funpay example_world example_dumper
            else (True, example_dumper, [])) = (True, example_dumper, [])"
    by (simp add: example_dumper_def)
  have m: "find_my_listing example_dumper [my_seller, seller_A, seller_B] = Inr (Some my_seller)"
    by (simp add: find_my_listing_def example_dumper_lot_id my_seller_def)
  have c: "find_cheapest_competitor example_dumper [my_seller, seller_A, seller_B]
             = Inr (Some seller_A)"
    by (simp add: find_cheapest_competitor_def in_whitelist_def example_dumper_def
        my_seller_def seller_A_def seller_B_def)
  have d: "decide (config example_dumper) (price my_seller) (price seller_A)
             = Inr (SetPrice (Finite 89))"
    by (simp add: decide_def float_sub_def double_eval example_dumper_def CONFIG_def
        my_seller_def seller_A_def)
  have u: "update_my_price example_world example_dumper (Finite 89)
             = (True, [CallChangeLotPrice (PStr ''L0'') (Finite 89)])"
    by (simp add: update_my_price_def example_dumper_def example_world_def)
  have s: "send_telegram_notification example_world example_dumper
             (Notification (price my_seller) (Finite 89) (seller_name seller_A) (price seller_A))
             = (True, [CallSendMessage (PStr ''C'') (Notification 100 (Finite 89) (PStr ''A'') 90)])"
    by (simp add: send_telegram_notification_def example_dumper_def example_world_def
        CONFIG_def getenv_def example_env_def my_seller_def seller_A_def)
  show ?thesis
    unfolding check_and_update_price_unfold [OF L example_market]
    by (simp add: m c d u s)
qed

lemma example_logged_in:
  "(if funpay_account example_dumper = None then login_to_funpay w example_dumper
    else (True, example_dumper, [])) = (True, example_dumper, [])"
  by (simp add: example_dumper_def)

theorem notification_only_after_update_witness:
  "CallSendMessage (PStr ''C'') (Notification 100 (Finite 89) (PStr ''A'') 90)
     \<in> set (calls (check_and_update_price example_world example_dumper)) \<and>
   (\<exists>a l p pre.
      funpay_account (dumper (check_and_update_price example_world example_dumper)) = Some a \<and>
      config example_dumper ''lot_id'' = Some l \<and> change_lot_price example_world a l p = None \<and>
      calls (check_and_update_price example_world example_dumper) =
        pre @ [CallChangeLotPrice l p,
               CallSendMessage (PStr ''C'') (Notification 100 (Finite 89) (PStr ''A'') 90)]) \<and>
   change_lot_price update_fails_world (Account (PStr ''u'') (PStr ''p'')) (PStr ''L0'') (Finite 89)
     = Some ExternalError \<and>
   CallSendMessage (PStr ''C'') (Notification 100 (Finite 89) (PStr ''A'') 90)
     \<notin> set (calls (check_and_update_price update_fails_world example_dumper))"
proof -
  have sent: "CallSendMessage (PStr ''C'') (Notification 100 (Finite 89) (PStr ''A'') 90)
     \<in> set (calls (check_and_update_price example_world example_dumper))"
    by (simp add: example_cycle)
  have fails: "\<forall>a l p. change_lot_price update_fails_world a l p \<noteq> None"
    by (simp add: update_fails_world_def)
  have f: "change_lot_price update_fails_world (Account (PStr ''u'') (PStr ''p''))
             (PStr ''L0'') (Finite 89) = Some ExternalError"
    by (simp add: update_fails_world_def)
  from notification_only_after_update [of example_world example_dumper] sent
  have a: "\<exists>a l p pre.
      funpay_account (dumper (check_and_update_price example_world example_dumper)) = Some a \<and>
      config example_dumper ''lot_id'' = Some l \<and> change_lot_price example_world a l p = None \<and>
      calls (check_and_update_price example_world example_dumper) =
        pre @ [CallChangeLotPrice l p,
               CallSendMessage (PStr ''C'') (Notification 100 (Finite 89) (PStr ''A'') 90)]"
    by blast
  from notification_only_after_update [of update_fails_world example_dumper] fails
  have b: "CallSendMessage (PStr ''C'') (Notification 100 (Finite 89) (PStr ''A'') 90)
     \<notin> set (calls (check_and_update_price update_fails_world example_dumper))"
    by blast
  from sent a f b show ?thesis by (intro conjI)
qed

theorem snapshot_failure_aborts_cycle_witness:
  "funpay_account example_dumper = Some (Account (PStr ''u'') (PStr ''p'')) \<and>
   get_lots query_fails_world (Account (PStr ''u'') (PStr ''p'')) (PStr ''G'') (PStr ''S'')
     = Inl ExternalError \<and>
   fst (get_market_prices query_fails_world example_dumper) = [] \<and>
   raised (check_and_update_price query_fails_world example_dumper) = None"
proof -
  have a: "funpay_account example_dumper = Some (Account (PStr ''u'') (PStr ''p''))"
    and g: "config example_dumper ''game_id'' = Some (PStr ''G'')"
    and s: "config example_dumper ''server_id'' = Some (PStr ''S'')"
    by (simp_all add: example_dumper_def)
  have q: "get_lots query_fails_world (Account (PStr ''u'') (PStr ''p'')) (PStr ''G'') (PStr ''S'')
     = Inl ExternalError"
    by (simp add: query_fails_world_def)
  note t = snapshot_failure_aborts_cycle [of example_dumper query_fails_world example_dumper]
  from t a g s q have e: "fst (get_market_prices query_fails_world example_dumper) = []"
    by blast
  have "dumper (check_and_update_price query_fails_world example_dumper) = example_dumper"
    by (rule check_and_update_price_dumper [OF example_logged_in])
  with e t have "raised (check_and_update_price query_fails_world example_dumper) = None"
    by simp
  with a q e show ?thesis by (intro conjI)
qed

lemma high_floor_logged_in:
  "(if funpay_account high_floor_dumper = None
    then login_to_funpay example_world high_floor_dumper
    else (True, high_floor_dumper, [])) = (True, high_floor_dumper, [])"
  by (simp add: high_floor_dumper_def example_dumper_def)

lemma high_floor_market:
  "get_market_prices example_world high_floor_dumper =
     ([my_seller, seller_A, seller_B], [CallGetLots (PStr ''G'') (PStr ''S'')])"
  by (simp add: get_market_prices_def example_world_def high_floor_dumper_def
      example_dumper_def example_lots_def my_seller_def seller_A_def seller_B_def)

lemma high_floor_mine:
  "find_my_listing high_floor_dumper [my_seller, seller_A, seller_B] = Inr (Some my_seller)"
  by (simp add: find_my_listing_def high_floor_dumper_def example_dumper_def my_seller_def)

lemma high_floor_cheapest:
  "find_cheapest_competitor high_floor_dumper [my_seller, seller_A, seller_B]
     = Inr (Some seller_A)"
  by (simp add: find_cheapest_competitor_def in_whitelist_def high_floor_dumper_def
      example_dumper_def my_seller_def seller_A_def seller_B_def)

theorem floor_above_competitor_still_updates_witness:
  "price seller_A < price my_seller \<and> price seller_A \<le> 120 \<and>
   config high_floor_dumper ''price_decrease_amount'' = Some (PNum 1) \<and>
   config high_floor_dumper ''min_price'' = Some (PNum 120) \<and> \<bar>1\<bar> < dbl_overflow \<and>
   decide (config high_floor_dumper) (price my_seller) (price seller_A)
     = Inr (SetPrice (Finite 120)) \<and>
   CallChangeLotPrice (PStr ''L0'') (Finite 120)
     \<in> set (calls (check_and_update_price example_world high_floor_dumper))"
proof -
  have d: "high_floor_dumper = dumper (check_and_update_price example_world high_floor_dumper)"
    by (rule check_and_update_price_dumper [OF high_floor_logged_in, symmetric])
  have m: "find_my_listing high_floor_dumper
             (fst (get_market_prices example_world high_floor_dumper)) = Inr (Some my_seller)"
    by (simp add: high_floor_market high_floor_mine)
  have c: "find_cheapest_competitor high_floor_dumper
             (fst (get_market_prices example_world high_floor_dumper)) = Inr (Some seller_A)"
    by (simp add: high_floor_market high_floor_cheapest)
  have p: "price seller_A < price my_seller" "price seller_A \<le> 120"
    by (simp_all add: my_seller_def seller_A_def)
  have k: "config high_floor_dumper ''price_decrease_amount'' = Some (PNum 1)"
    "config high_floor_dumper ''min_price'' = Some (PNum 120)"
    by (simp_all add: high_floor_dumper_def example_dumper_def CONFIG_def)
  have l: "lot_id my_seller = PStr ''L0''" and v: "price seller_A = 90"
    by (simp_all add: my_seller_def seller_A_def)
  have b: "\<bar>1\<bar> < dbl_overflow" by (simp add: dbl_overflow_def)
  have n: "(if number_lt (float_minus (price seller_A) (round_to_double 1)) 120 then Finite 120
            else float_minus (price seller_A) (round_to_double 1)) = Finite 120"
    by (simp add: double_eval v)
  note t = floor_above_competitor_still_updates [OF d m c p(1) k p(2), THEN conjunct1,
      THEN mp, OF b]
  from t have "decide (config high_floor_dumper) (price my_seller) (price seller_A)
          = Inr (SetPrice (Finite 120)) \<and>
        CallChangeLotPrice (PStr ''L0'') (Finite 120)
          \<in> set (calls (check_and_update_price example_world high_floor_dumper))"
    by (simp only: n l)
  with p k b show ?thesis by simp
qed

text \<open>
  The same market and minimum price with the integer \<open>2 ^ 1024\<close> as the decrease: my
  price is above the competitor's, and the cycle ends with an \<^verbatim>\<open>OverflowError\<close>
  after the listing query, its only call.
\<close>

theorem huge_decrease_no_update:
  "price seller_A < price my_seller \<and>
   config huge_decrease_dumper ''min_price'' = Some (PNum 120) \<and> price seller_A \<le> 120 \<and>
   find_my_listing huge_decrease_dumper
     (fst (get_market_prices example_world huge_decrease_dumper)) = Inr (Some my_seller) \<and>
   find_cheapest_competitor huge_decrease_dumper
     (fst (get_market_prices example_world huge_decrease_dumper)) = Inr (Some seller_A) \<and>
   raised (check_and_update_price example_world huge_decrease_dumper) = Some OverflowError \<and>
   calls (check_and_update_price example_world huge_decrease_dumper)
     = [CallGetLots (PStr ''G'') (PStr ''S'')]"
proof -
  have L: "(if funpay_account huge_decrease_dumper = None
            then login_to_funpay example_world huge_decrease_dumper
            else (True, huge_decrease_dumper, [])) = (True, huge_decrease_dumper, [])"
    by (simp add: huge_decrease_dumper_def high_floor_dumper_def example_dumper_def)
  have G: "get_market_prices example_world huge_decrease_dumper =
     ([my_seller, seller_A, seller_B], [CallGetLots (PStr ''G'') (PStr ''S'')])"
    by (simp add: get_market_prices_def example_world_def huge_decrease_dumper_def
        high_floor_dumper_def example_dumper_def example_lots_def
        my_seller_def seller_A_def seller_B_def)
  have m: "find_my_listing huge_decrease_dumper [my_seller, seller_A, seller_B]
             = Inr (Some my_seller)"
    by (simp add: find_my_listing_def huge_decrease_dumper_def high_floor_dumper_def
        example_dumper_def my_seller_def)
  have c: "find_cheapest_competitor huge_decrease_dumper [my_seller, seller_A, seller_B]
             = Inr (Some seller_A)"
    by (simp add: find_cheapest_competitor_def in_whitelist_def huge_decrease_dumper_def
        high_floor_dumper_def example_dumper_def my_seller_def seller_A_def seller_B_def)
  have k: "config huge_decrease_dumper ''min_price'' = Some (PNum 120)"
    by (simp add: huge_decrease_dumper_def high_floor_dumper_def)
  have p: "price seller_A < price my_seller" "price seller_A \<le> 120"
    by (simp_all add: my_seller_def seller_A_def)
  have d: "decide (config huge_decrease_dumper) (price my_seller) (price seller_A)
             = Inl OverflowError"
    by (simp add: decide_def float_sub_def dbl_overflow_def huge_decrease_dumper_def
        high_floor_dumper_def my_seller_def seller_A_def)
  have "check_and_update_price example_world huge_decrease_dumper =
          \<lparr>raised = Some OverflowError, dumper = huge_decrease_dumper,
           calls = [CallGetLots (PStr ''G'') (PStr ''S'')]\<rparr>"
    unfolding check_and_update_price_unfold [OF L G]
    by (simp add: m c d)
  with p k m c G show ?thesis by simp
qed

end
